theory Spec2Isabelle
  imports Complex_Main "HOL-Library.Word" "HOL-Library.AList"
begin

section \<open>Data model of rwtxt (src/main.go)\<close>

text \<open>
  Go strings are byte strings: \<open>string\<close>. A \<open>time.Time\<close> is a clock reading in
  nanoseconds. A Go \<open>error\<close> value is its message.
\<close>

type_synonym Time = int
type_synonym bytes = "8 word list"

datatype error = Error string

text \<open>
  \<open>db.File\<close>: the struct is declared in package src/db; these are the fields the
  handlers of main.go read and write.
\<close>

record File =
  fID :: string
  fSlug :: string
  fData :: string
  fCreated :: Time
  fModified :: Time
  fDomain :: string

definition zeroTime :: Time where
  "zeroTime = 0"

definition File0 :: File where
  "File0 = \<lparr>fID = [], fSlug = [], fData = [], fCreated = zeroTime, fModified = zeroTime, fDomain = []\<rparr>"

text \<open>The struct \<open>Payload\<close> of main.go, the live-sync message in both directions.\<close>

record Payload =
  pID :: string
  pDomainKey :: string
  pDomain :: string
  pData :: string
  pSlug :: string
  pMessage :: string
  pSuccess :: bool

definition Payload0 :: Payload where
  "Payload0 = \<lparr>pID = [], pDomainKey = [], pDomain = [], pData = [], pSlug = [], pMessage = [],
     pSuccess = False\<rparr>"

text \<open>
  A JSON object as it arrives on the connection: each key of \<open>Payload\<close>'s JSON tags
  is present with a value, or absent.
\<close>

record Msg =
  m_id :: "string option"
  m_domain_key :: "string option"
  m_domain :: "string option"
  m_data :: "string option"
  m_slug :: "string option"
  m_message :: "string option"
  m_success :: "bool option"

definition Msg0 :: Msg where
  "Msg0 = \<lparr>m_id = None, m_domain_key = None, m_domain = None, m_data = None, m_slug = None,
     m_message = None, m_success = None\<rparr>"

definition introText :: string where
  "introText = ''This note is empty. Click to edit it.''"

text \<open>
  An entry of the result of \<open>JaccardSimilarity\<close> (package documentsimilarity): the
  position of a corpus document and its score. The score is a ratio of set sizes.
\<close>

record Similarity =
  simIndex :: int
  simScore :: rat

section \<open>The store and the libraries main.go calls\<close>

text \<open>
  The methods of \<open>*db.FileSystem\<close> that main.go calls. Their bodies are in package src/db,
  so the handlers take them as parameters over a store state \<open>'st\<close>. A method that
  returns \<open>(value, err)\<close> and whose value main.go uses even when \<open>err\<close> is set returns a pair.
\<close>

record 'st db =
  CheckKey :: "'st \<Rightarrow> string \<Rightarrow> error + string"
  Save :: "'st \<Rightarrow> File \<Rightarrow> error option \<times> 'st"
  Get :: "'st \<Rightarrow> string \<Rightarrow> string \<Rightarrow> File list \<times> error option"
  GetAll :: "'st \<Rightarrow> string \<Rightarrow> File list \<times> error option"
  Exists :: "'st \<Rightarrow> string \<Rightarrow> string \<Rightarrow> error + bool"
  GetSimilar :: "'st \<Rightarrow> string \<Rightarrow> File list \<times> error option"
  SetSimilar :: "'st \<Rightarrow> string \<Rightarrow> string list \<Rightarrow> error option \<times> 'st"
  GetDomainFromName :: "'st \<Rightarrow> string \<Rightarrow> int \<times> bool \<times> error option"
  SetDomain :: "'st \<Rightarrow> string \<Rightarrow> string \<Rightarrow> error option \<times> 'st"
  SetKey :: "'st \<Rightarrow> string \<Rightarrow> string \<Rightarrow> (error + string) \<times> 'st"
  GetTopX :: "'st \<Rightarrow> string \<Rightarrow> nat \<Rightarrow> File list \<times> error option"
  GetTopXMostViews :: "'st \<Rightarrow> string \<Rightarrow> nat \<Rightarrow> File list \<times> error option"
  UpdateViews :: "'st \<Rightarrow> File \<Rightarrow> error option \<times> 'st"
  SaveBlob :: "'st \<Rightarrow> string \<Rightarrow> string \<Rightarrow> bytes \<Rightarrow> error option \<times> 'st"
  LastModified :: "'st \<Rightarrow> error + Time"
  DeleteOldKeys :: "'st \<Rightarrow> error option \<times> 'st"
  DumpSQL :: "'st \<Rightarrow> error option \<times> 'st"

text \<open>
  Functions of other packages: \<open>strings.ToLower\<close> (Unicode case tables),
  \<open>utils.RenderMarkdownToHTML\<close>, \<open>sha256\<close>, \<open>gzip\<close>, \<open>url.QueryEscape\<close>, the two
  calls of documentsimilarity (the index \<open>New\<close> builds is identified with the corpus it
  was built from), and the order in which \<open>range\<close> visits a map, which Go leaves open.
\<close>

record lib =
  ToLower :: "string \<Rightarrow> string"
  RenderMarkdownToHTML :: "string \<Rightarrow> string"
  sha256 :: "bytes \<Rightarrow> bytes"
  gzip :: "bytes \<Rightarrow> bytes"
  QueryEscape :: "string \<Rightarrow> string"
  dsNew :: "string list \<Rightarrow> error option"
  dsJaccardSimilarity :: "string list \<Rightarrow> string \<Rightarrow> error + Similarity list"
  mapOrder :: "(string \<times> string) list \<Rightarrow> (string \<times> string) list"

section \<open>strings.TrimSpace\<close>

text \<open>
  \<open>strings.TrimSpace\<close> removes leading and trailing runes with the Unicode White_Space
  property. On bytes these are the UTF-8 encodings below; a byte sequence that is not one
  of them decodes to a rune that is not white space.
\<close>

definition spaceRunes :: "string list" where
  "spaceRunes =
    [[CHR 0x09], [CHR 0x0A], [CHR 0x0B], [CHR 0x0C], [CHR 0x0D], [CHR 0x20],
     [CHR 0xC2, CHR 0x85], [CHR 0xC2, CHR 0xA0],
     [CHR 0xE1, CHR 0x9A, CHR 0x80],
     [CHR 0xE2, CHR 0x80, CHR 0x80], [CHR 0xE2, CHR 0x80, CHR 0x81],
     [CHR 0xE2, CHR 0x80, CHR 0x82], [CHR 0xE2, CHR 0x80, CHR 0x83],
     [CHR 0xE2, CHR 0x80, CHR 0x84], [CHR 0xE2, CHR 0x80, CHR 0x85],
     [CHR 0xE2, CHR 0x80, CHR 0x86], [CHR 0xE2, CHR 0x80, CHR 0x87],
     [CHR 0xE2, CHR 0x80, CHR 0x88], [CHR 0xE2, CHR 0x80, CHR 0x89],
     [CHR 0xE2, CHR 0x80, CHR 0x8A],
     [CHR 0xE2, CHR 0x80, CHR 0xA8], [CHR 0xE2, CHR 0x80, CHR 0xA9],
     [CHR 0xE2, CHR 0x80, CHR 0xAF], [CHR 0xE2, CHR 0x81, CHR 0x9F],
     [CHR 0xE3, CHR 0x80, CHR 0x80]]"

definition leading :: "string list \<Rightarrow> string \<Rightarrow> nat" where
  "leading ws s =
     (case filter (\<lambda>w. w \<noteq> [] \<and> take (length w) s = w) ws of
        [] \<Rightarrow> 0
      | w # _ \<Rightarrow> length w)"

fun trimN :: "nat \<Rightarrow> string list \<Rightarrow> string \<Rightarrow> string" where
  "trimN 0 ws s = s"
| "trimN (Suc n) ws s = (if leading ws s = 0 then s else trimN n ws (drop (leading ws s) s))"

definition TrimLeft :: "string \<Rightarrow> string" where
  "TrimLeft s = trimN (length s) spaceRunes s"

definition TrimRight :: "string \<Rightarrow> string" where
  "TrimRight s = rev (trimN (length s) (map rev spaceRunes) (rev s))"

definition TrimSpace :: "string \<Rightarrow> string" where
  "TrimSpace s = TrimRight (TrimLeft s)"

section \<open>addSimilar\<close>

text \<open>
  A Go function returns, or panics: \<open>ids[similarity.Index]\<close> panics when the index is
  out of range.
\<close>

datatype 'st ret = Returns "error option" 'st | Panics

definition truncate5 :: "Similarity list \<Rightarrow> Similarity list" where
  "truncate5 similarities = (if length similarities > 5 then take 5 similarities else similarities)"

definition maindocumentOf :: "File list \<Rightarrow> string \<Rightarrow> string" where
  "maindocumentOf files fileid =
     (case rev (filter (\<lambda>f. fID f = fileid) files) of [] \<Rightarrow> [] | f # _ \<Rightarrow> fData f)"

definition othersOf :: "File list \<Rightarrow> string \<Rightarrow> File list" where
  "othersOf files fileid = filter (\<lambda>f. fID f \<noteq> fileid) files"

definition inRange :: "'a list \<Rightarrow> Similarity \<Rightarrow> bool" where
  "inRange ids s = (0 \<le> simIndex s \<and> simIndex s < int (length ids))"

definition similarIdsOf :: "string list \<Rightarrow> Similarity list \<Rightarrow> string list" where
  "similarIdsOf ids similarities = map (\<lambda>s. ids ! nat (simIndex s)) similarities"

definition addSimilar :: "'st db \<Rightarrow> lib \<Rightarrow> 'st \<Rightarrow> string \<Rightarrow> string \<Rightarrow> 'st ret" where
  "addSimilar ops L st domain fileid =
     (let files = fst (GetAll ops st domain);
          ids = map fID (othersOf files fileid);
          documents = map fData (othersOf files fileid);
          maindocument = maindocumentOf files fileid
      in case dsNew L documents of
           Some e \<Rightarrow> Returns (Some e) st
         | None \<Rightarrow>
            (case dsJaccardSimilarity L documents maindocument of
               Inl e \<Rightarrow> Returns (Some e) st
             | Inr similarities \<Rightarrow>
                 if list_all (inRange ids) (truncate5 similarities)
                 then (case SetSimilar ops st fileid (similarIdsOf ids (truncate5 similarities)) of
                         (e, st') \<Rightarrow> Returns e st')
                 else Panics))"

section \<open>handleWebsocket\<close>

text \<open>
  \<open>ReadJSON\<close> decodes the message into the variable \<open>p\<close>, which is declared before the
  loop: the JSON decoder sets the fields whose keys the object carries and leaves the
  others as they are.
\<close>

definition ReadJSON :: "Msg \<Rightarrow> Payload \<Rightarrow> Payload" where
  "ReadJSON m q =
     \<lparr>pID = (case m_id m of None \<Rightarrow> pID q | Some v \<Rightarrow> v),
      pDomainKey = (case m_domain_key m of None \<Rightarrow> pDomainKey q | Some v \<Rightarrow> v),
      pDomain = (case m_domain m of None \<Rightarrow> pDomain q | Some v \<Rightarrow> v),
      pData = (case m_data m of None \<Rightarrow> pData q | Some v \<Rightarrow> v),
      pSlug = (case m_slug m of None \<Rightarrow> pSlug q | Some v \<Rightarrow> v),
      pMessage = (case m_message m of None \<Rightarrow> pMessage q | Some v \<Rightarrow> v),
      pSuccess = (case m_success m of None \<Rightarrow> pSuccess q | Some v \<Rightarrow> v)\<rparr>"

text \<open>The local variables of \<open>handleWebsocket\<close> that live across iterations.\<close>

record session =
  domainChecked :: bool
  domainValidated :: bool
  editFile :: File
  payload :: Payload

definition session0 :: session where
  "session0 = \<lparr>domainChecked = False, domainValidated = False, editFile = File0, payload = Payload0\<rparr>"

text \<open>
  What the connection does next: \<open>ReadJSON\<close> fails, or a message arrives, with the
  reading of \<open>time.Now()\<close> in that iteration and the result of the \<open>WriteJSON\<close> that
  answers it.
\<close>

datatype event = ReadFails error | Receives Msg Time "error option"

datatype action =
    WriteJSON Payload
  | LogError error
  | LogDebug string
  | CallSave File
  | CallAddSimilar string string
  | CallDeleteOldKeys
  | CallDumpSQL

datatype status = Reading | Closed | Panicked

definition checkDomain :: "'st db \<Rightarrow> 'st \<Rightarrow> session \<Rightarrow> Payload \<Rightarrow> bool" where
  "checkDomain ops st s q =
     (if \<not> domainChecked s
      then (if pDomain q = ''public'' then True
            else (case CheckKey ops st (pDomainKey q) of
                    Inl keyErr \<Rightarrow> domainValidated s
                  | Inr _ \<Rightarrow> True))
      else domainValidated s)"

definition defaultDomain :: "Payload \<Rightarrow> Payload" where
  "defaultDomain q = (if pDomain q = [] then q\<lparr>pDomain := ''public''\<rparr> else q)"

definition normalize :: "string \<Rightarrow> string" where
  "normalize d = (if TrimSpace d = introText then [] else TrimSpace d)"

definition newEditFile :: "Payload \<Rightarrow> Time \<Rightarrow> File" where
  "newEditFile q now =
     \<lparr>fID = pID q, fSlug = pSlug q, fData = normalize (pData q), fCreated = now,
      fModified = zeroTime, fDomain = pDomain q\<rparr>"

definition ack :: "Payload \<Rightarrow> File list \<Rightarrow> Payload" where
  "ack q files = Payload0\<lparr>pID := pID q, pSlug := pSlug q, pMessage := ''unique_slug'',
     pSuccess := (length files < 2)\<rparr>"

definition notSaving :: Payload where
  "notSaving = Payload0\<lparr>pMessage := ''not saving''\<rparr>"

definition afterWrite :: "error option \<Rightarrow> status" where
  "afterWrite w = (case w of None \<Rightarrow> Reading | Some _ \<Rightarrow> Closed)"

definition logged :: "error option \<Rightarrow> action list" where
  "logged e = (case e of None \<Rightarrow> [] | Some x \<Rightarrow> [LogError x])"

text \<open>One iteration of the loop in which \<open>ReadJSON\<close> succeeds.\<close>

definition onMessage ::
  "'st db \<Rightarrow> Msg \<Rightarrow> Time \<Rightarrow> error option \<Rightarrow> session \<Rightarrow> 'st \<Rightarrow> status \<times> session \<times> 'st \<times> action list" where
  "onMessage ops m now w s st =
     (let q = ReadJSON m (payload s);
          validated = checkDomain ops st s q;
          s1 = s\<lparr>domainChecked := True, domainValidated := validated, payload := q\<rparr>
      in if pID q \<noteq> [] \<and> validated
         then (let q2 = defaultDomain q;
                   f = newEditFile q2 now;
                   saved = Save ops st f;
                   files = fst (Get ops (snd saved) (pSlug q2) (pDomain q2))
               in (afterWrite w, s1\<lparr>payload := q2, editFile := f\<rparr>, snd saved,
                   CallSave f # logged (fst saved) @ [WriteJSON (ack q2 files)]))
         else (afterWrite w, s1, st, [WriteJSON notSaving]))"

text \<open>The iteration in which \<open>ReadJSON\<close> fails: the loop ends here.\<close>

definition onReadError :: "'st db \<Rightarrow> lib \<Rightarrow> session \<Rightarrow> 'st \<Rightarrow> status \<times> session \<times> 'st \<times> action list" where
  "onReadError ops L s st =
     (if fID (editFile s) \<noteq> [] \<and> fDomain (editFile s) \<noteq> ''public''
      then (case addSimilar ops L st (fDomain (editFile s)) (fID (editFile s)) of
              Returns e st' \<Rightarrow>
                (Closed, s, st', CallAddSimilar (fDomain (editFile s)) (fID (editFile s)) # logged e)
            | Panics \<Rightarrow>
                (Panicked, s, st, [CallAddSimilar (fDomain (editFile s)) (fID (editFile s))]))
      else (Closed, s, st, []))"

text \<open>
  The loop over the events of the connection. With no event left the handler is blocked
  in \<open>ReadJSON\<close>: the status is \<open>Reading\<close>.
\<close>

fun wsLoop ::
  "'st db \<Rightarrow> lib \<Rightarrow> event list \<Rightarrow> session \<Rightarrow> 'st \<Rightarrow> status \<times> session \<times> 'st \<times> action list" where
  "wsLoop ops L [] s st = (Reading, s, st, [])"
| "wsLoop ops L (ReadFails e # es) s st = onReadError ops L s st"
| "wsLoop ops L (Receives m now w # es) s st =
     (case onMessage ops m now w s st of
        (Reading, s', st', as) \<Rightarrow>
          (case wsLoop ops L es s' st' of (r, s'', st'', bs) \<Rightarrow> (r, s'', st'', as @ bs))
      | other \<Rightarrow> other)"

definition handleWebsocket ::
  "'st db \<Rightarrow> lib \<Rightarrow> event list \<Rightarrow> 'st \<Rightarrow> status \<times> session \<times> 'st \<times> action list" where
  "handleWebsocket ops L es st = wsLoop ops L es session0 st"

section \<open>The loop that dumps the database (serve)\<close>

text \<open>
  \<open>time.Since(t)\<close> is \<open>time.Now().Sub(t)\<close>, a \<open>Duration\<close> in nanoseconds that
  saturates at the bounds of int64. \<open>Seconds()\<close> converts it to a float; against the
  whole numbers 3 and 10 the comparison of the floats is the comparison of the nanoseconds.
\<close>

definition maxDuration :: int where
  "maxDuration = 2 ^ 63 - 1"

definition minDuration :: int where
  "minDuration = - (2 ^ 63)"

definition Since :: "Time \<Rightarrow> Time \<Rightarrow> int" where
  "Since now t = max minDuration (min maxDuration (now - t))"

definition SecondsGt :: "int \<Rightarrow> int \<Rightarrow> bool" where
  "SecondsGt d n = (d > n * 1000000000)"

text \<open>
  One round of the loop: what the other goroutines did to the store during the
  \<open>Sleep\<close>, and the clock at the two calls of \<open>time.Since\<close> and at the
  \<open>time.Now()\<close> that follows the dump.
\<close>

record 'st tick =
  activity :: "'st \<Rightarrow> 'st"
  sinceModifiedAt :: Time
  sinceDumpedAt :: Time
  dumpedAt :: Time

definition dumpDue :: "'st tick \<Rightarrow> Time \<Rightarrow> Time \<Rightarrow> bool" where
  "dumpDue t lastModified lastDumped =
     (SecondsGt (Since (sinceModifiedAt t) lastModified) 3 \<and>
      SecondsGt (Since (sinceDumpedAt t) lastDumped) 10)"

text \<open>The result is the value of the panic, if any, the store, \<open>lastDumped\<close> and what was done.\<close>

definition dumpTick ::
  "'st db \<Rightarrow> 'st tick \<Rightarrow> 'st \<Rightarrow> Time \<Rightarrow> error option \<times> 'st \<times> Time \<times> action list" where
  "dumpTick ops t st lastDumped =
     (case LastModified ops (activity t st) of
        Inl errGet \<Rightarrow> (Some errGet, activity t st, lastDumped, [])
      | Inr lastModified \<Rightarrow>
          if dumpDue t lastModified lastDumped
          then (let deleted = DeleteOldKeys ops (activity t st);
                    dumped = DumpSQL ops (snd deleted)
                in (None, snd dumped, dumpedAt t,
                    [LogDebug ''dumping'', CallDeleteOldKeys] @ logged (fst deleted) @
                    [CallDumpSQL] @ logged (fst dumped)))
          else (None, activity t st, lastDumped, []))"

fun dumpLoop ::
  "'st db \<Rightarrow> 'st tick list \<Rightarrow> 'st \<Rightarrow> Time \<Rightarrow> error option \<times> 'st \<times> Time \<times> action list" where
  "dumpLoop ops [] st lastDumped = (None, st, lastDumped, [])"
| "dumpLoop ops (t # ts) st lastDumped =
     (case dumpTick ops t st lastDumped of
        (None, st', lastDumped', as) \<Rightarrow>
          (case dumpLoop ops ts st' lastDumped' of (r, st'', d, bs) \<Rightarrow> (r, st'', d, as @ bs))
      | other \<Rightarrow> other)"

section \<open>The HTTP handlers\<close>

record Cookie =
  cName :: string
  cValue :: string
  cExpires :: Time

text \<open>
  The request: the value of the cookie \<open>rwtxt-domains\<close> if it is sent, the form values,
  the query values, and the result of \<open>FormFile("file")\<close>, a file name with its content.
\<close>

record Request =
  rCookie :: "string option"
  rForm :: "string \<Rightarrow> string"
  rQuery :: "string \<Rightarrow> string"
  rFile :: "error + string \<times> bytes"

text \<open>
  What a handler draws from outside in one call: \<open>utils.UUID()\<close>, the readings of
  \<open>time.Now()\<close> for \<open>Created\<close>, \<open>Modified\<close> and the expiry of the cookie, and the
  result of executing the template.
\<close>

record Nondet =
  nUUID :: string
  nCreated :: Time
  nModified :: Time
  nNow :: Time
  nExecute :: "error option"

record TemplateRender =
  tTitle :: string
  tPage :: string
  tRendered :: string
  tFile :: File
  tIntroText :: string
  tRows :: nat
  tRandomUUID :: string
  tDomain :: string
  tDomainKey :: string
  tDomainIsPrivate :: bool
  tDomainValue :: string
  tDomainList :: "string list"
  tSignedIn :: bool
  tMessage :: string
  tNumResults :: nat
  tFiles :: "File list"
  tMostActiveList :: "File list"
  tSimilarFiles :: "File list"
  tSearch :: string
  tDomainExists :: bool
  tShowCookieMessage :: bool
  tEditOnly :: bool

definition TemplateRender0 :: TemplateRender where
  "TemplateRender0 =
     \<lparr>tTitle = [], tPage = [], tRendered = [], tFile = File0, tIntroText = [], tRows = 0,
      tRandomUUID = [], tDomain = [], tDomainKey = [], tDomainIsPrivate = False,
      tDomainValue = [], tDomainList = [], tSignedIn = False, tMessage = [], tNumResults = 0,
      tFiles = [], tMostActiveList = [], tSimilarFiles = [], tSearch = [],
      tDomainExists = False, tShowCookieMessage = False, tEditOnly = False\<rparr>"

datatype body =
    NoBody
  | MainTemplate TemplateRender
  | ListTemplate TemplateRender
  | ViewEditTemplate TemplateRender
  | HttpRedirect string nat
  | HttpError string nat
  | Written string

record response =
  rsCookies :: "Cookie list"
  rsHeaders :: "(string \<times> string) list"
  rsBody :: body

text \<open>
  What a handler leaves: the response, the error it returns, the store, what it logged,
  and the files for which it started the goroutine that calls \<open>UpdateViews\<close>.
\<close>

record 'st result =
  hResponse :: response
  hErr :: "error option"
  hStore :: 'st
  hLog :: "action list"
  hSpawned :: "File list"

datatype 'a outcome = Normal 'a | Panic

definition msgOf :: "error \<Rightarrow> string" where
  "msgOf e = (case e of Error s \<Rightarrow> s)"

fun splitComma :: "string \<Rightarrow> string list" where
  "splitComma [] = [[]]"
| "splitComma (c # cs) =
     (if c = CHR '','' then [] # splitComma cs
      else (case splitComma cs of [] \<Rightarrow> [[c]] | x # xs \<Rightarrow> (c # x) # xs))"

fun joinComma :: "string list \<Rightarrow> string" where
  "joinComma [] = []"
| "joinComma [x] = x"
| "joinComma (x # y # ys) = x @ '','' @ joinComma (y # ys)"

definition gzipHtml :: "(string \<times> string) list" where
  "gzipHtml = [(''Content-Encoding'', ''gzip''), (''Content-Type'', ''text/html'')]"

text \<open>A Go map from domain names to keys: an association list with distinct keys.\<close>

definition checkCookieKey ::
  "'st db \<Rightarrow> 'st \<Rightarrow> (string \<times> string) list \<times> string \<Rightarrow> string \<Rightarrow> (string \<times> string) list \<times> string" where
  "checkCookieKey ops st acc k =
     (case CheckKey ops st k of
        Inl domainErr \<Rightarrow> acc
      | Inr domainName \<Rightarrow>
          if domainName \<noteq> []
          then (AList.update domainName k (fst acc), if snd acc = [] then domainName else snd acc)
          else acc)"

definition getDomainListCookie :: "'st db \<Rightarrow> 'st \<Rightarrow> Request \<Rightarrow> (string \<times> string) list \<times> string" where
  "getDomainListCookie ops st r =
     (let found = (case rCookie r of
                     None \<Rightarrow> ([], [])
                   | Some v \<Rightarrow> foldl (checkCookieKey ops st) ([], []) (splitComma v))
      in (AList.update ''public'' [] (fst found), if snd found = [] then ''public'' else snd found))"

definition lookupKey :: "(string \<times> string) list \<Rightarrow> string \<Rightarrow> string" where
  "lookupKey domainKeys d = (case map_of domainKeys d of None \<Rightarrow> [] | Some k \<Rightarrow> k)"

text \<open>The results are signedin, domainkey, defaultDomain, domainList and domainKeys.\<close>

definition isSignedIn ::
  "'st db \<Rightarrow> lib \<Rightarrow> 'st \<Rightarrow> Request \<Rightarrow> string \<Rightarrow> bool \<times> string \<times> string \<times> string list \<times> (string \<times> string) list" where
  "isSignedIn ops L st r domain =
     (let domainKeys = fst (getDomainListCookie ops st r);
          visited = map fst (mapOrder L domainKeys);
          signedin = (domain \<in> set visited)
      in (signedin, if signedin then lookupKey domainKeys domain else [],
          snd (getDomainListCookie ops st r), visited, domainKeys))"

definition year :: int where
  "year = 365 * 24 * 3600 * 1000000000"

definition updateDomainCookie :: "lib \<Rightarrow> string \<Rightarrow> string \<Rightarrow> (string \<times> string) list \<Rightarrow> Time \<Rightarrow> Cookie" where
  "updateDomainCookie L domain k domainKeys now =
     (let updated = AList.update domain k (AList.delete ''public'' domainKeys);
          domainKeyList = k # map (lookupKey updated)
                                (filter (\<lambda>domainName. domainName \<noteq> domain) (map fst (mapOrder L updated)))
      in \<lparr>cName = ''rwtxt-domains'', cValue = joinComma domainKeyList, cExpires = now + year\<rparr>)"

definition createPage :: "'st db \<Rightarrow> 'st \<Rightarrow> Nondet \<Rightarrow> string \<Rightarrow> File \<times> 'st" where
  "createPage ops st nd domain =
     (let f = \<lparr>fID = nUUID nd, fSlug = [], fData = [], fCreated = nCreated nd,
               fModified = nModified nd, fDomain = domain\<rparr>
      in (f, snd (Save ops st f)))"

definition handleMain ::
  "'st db \<Rightarrow> lib \<Rightarrow> 'st \<Rightarrow> Request \<Rightarrow> Nondet \<Rightarrow> string \<Rightarrow> string \<Rightarrow> 'st result" where
  "handleMain ops L st r nd domain message =
     (case isSignedIn ops L st r domain of
        (signedin, domainKey, defaultDom, domainList, domainKeys) \<Rightarrow>
          (let created = createPage ops st nd domain;
               described = GetDomainFromName ops (snd created) domain;
               ispublic = fst (snd described);
               domainErr = snd (snd described)
           in \<lparr>hResponse =
                  \<lparr>rsCookies = (if signedin \<and> defaultDom \<noteq> domain
                                then [updateDomainCookie L domain domainKey domainKeys (nNow nd)]
                                else []),
                   rsHeaders = gzipHtml,
                   rsBody = MainTemplate (TemplateRender0
                     \<lparr>tTitle := ''rwtxt'', tMessage := message, tDomain := domain,
                      tRandomUUID := fID (fst created),
                      tSignedIn := (signedin \<and> domainErr = None),
                      tFiles := fst (GetTopX ops (snd created) domain 10),
                      tMostActiveList := fst (GetTopXMostViews ops (snd created) domain 10),
                      tDomainExists := (domainErr = None),
                      tDomainIsPrivate := (\<not> ispublic \<and> domain \<noteq> ''public''),
                      tDomainKey := domainKey,
                      tDomainValue := ''value=\"'' @ domain @ ''\"'',
                      tDomainList := domainList,
                      tShowCookieMessage := False\<rparr>)\<rparr>,
                hErr = nExecute nd, hStore = snd created, hLog = [], hSpawned = []\<rparr>))"

definition handleList ::
  "'st db \<Rightarrow> lib \<Rightarrow> 'st \<Rightarrow> Request \<Rightarrow> Nondet \<Rightarrow> string \<Rightarrow> string \<Rightarrow> File list \<Rightarrow> 'st result" where
  "handleList ops L st r nd domain query files =
     \<lparr>hResponse =
        \<lparr>rsCookies = [], rsHeaders = gzipHtml,
         rsBody = ListTemplate (TemplateRender0
           \<lparr>tTitle := query @ '' pages'', tDomain := domain, tFiles := files,
            tNumResults := length files, tSearch := query, tRandomUUID := nUUID nd,
            tSignedIn := fst (isSignedIn ops L st r domain)\<rparr>)\<rparr>,
      hErr = nExecute nd, hStore = st, hLog = [], hSpawned = []\<rparr>"

subsection \<open>handleLogin\<close>

definition handleLogin :: "'st db \<Rightarrow> lib \<Rightarrow> 'st \<Rightarrow> Request \<Rightarrow> Nondet \<Rightarrow> 'st result" where
  "handleLogin ops L st r nd =
     (let domain = TrimSpace (ToLower L (rForm r ''domain''));
          password = TrimSpace (rForm r ''password'')
      in if domain = ''public'' \<or> domain = [] then handleMain ops L st r nd ''public'' []
         else if password = [] then handleMain ops L st r nd ''public'' ''domain key cannot be empty''
         else (let existing = snd (snd (GetDomainFromName ops st domain));
                   registered = (if existing \<noteq> None then SetDomain ops st domain password
                                 else (None, st))
               in case fst registered of
                    Some e \<Rightarrow>
                      (handleMain ops L (snd registered) r nd ''public'' (msgOf e))
                        \<lparr>hLog := [LogError e]\<rparr>
                  | None \<Rightarrow>
                     (case SetKey ops (snd registered) domain password of
                        (Inl e, st2) \<Rightarrow> handleMain ops L st2 r nd ''public'' (msgOf e)
                      | (Inr k, st2) \<Rightarrow>
                          \<lparr>hResponse =
                             \<lparr>rsCookies = [updateDomainCookie L domain k
                                             (fst (getDomainListCookie ops st2 r)) (nNow nd)],
                              rsHeaders = [], rsBody = HttpRedirect (''/'' @ domain) 302\<rparr>,
                           hErr = None, hStore = st2, hLog = [], hSpawned = []\<rparr>)))"

subsection \<open>handleViewEdit\<close>

definition rowsOf :: "string \<Rightarrow> nat" where
  "rowsOf html = length (filter (\<lambda>c. c = CHR 0x0A) html) + 1 + 1"

definition viewPage :: "lib \<Rightarrow> string \<Rightarrow> string \<Rightarrow> bool \<Rightarrow> string \<Rightarrow> File \<Rightarrow> File list \<Rightarrow> TemplateRender" where
  "viewPage L domain page signedIn domainKey f similarFiles =
     TemplateRender0
       \<lparr>tPage := page,
        tRendered := RenderMarkdownToHTML L ([CHR 0x0A, CHR 0x0A] @ fData f),
        tFile := f, tIntroText := introText, tTitle := fSlug f,
        tRows := rowsOf (RenderMarkdownToHTML L ([CHR 0x0A, CHR 0x0A] @ fData f)),
        tDomain := domain, tDomainKey := domainKey, tSignedIn := signedIn,
        tEditOnly := (TrimSpace (fData f) = []), tSimilarFiles := similarFiles\<rparr>"

text \<open>
  \<open>nd\<close> is what the handler itself draws; \<open>nd'\<close> is what \<open>handleMain\<close> or
  \<open>handleList\<close> draw when the handler hands over to them.
\<close>

definition handleViewEdit ::
  "'st db \<Rightarrow> lib \<Rightarrow> 'st \<Rightarrow> Request \<Rightarrow> Nondet \<Rightarrow> Nondet \<Rightarrow> string \<Rightarrow> string \<Rightarrow> 'st result outcome" where
  "handleViewEdit ops L st r nd nd' domain page =
     (case Exists ops st page domain of
        Inl e \<Rightarrow>
          Normal \<lparr>hResponse = \<lparr>rsCookies = [], rsHeaders = [], rsBody = NoBody\<rparr>,
                  hErr = Some e, hStore = st, hLog = [], hSpawned = []\<rparr>
      | Inr havePage \<Rightarrow>
         (case isSignedIn ops L st r domain of
            (signedIn, domainKey, _) \<Rightarrow>
              if snd (snd (GetDomainFromName ops st domain)) = None \<and> \<not> signedIn \<and>
                 \<not> fst (snd (GetDomainFromName ops st domain))
              then Normal (handleMain ops L st r nd' domain ''domain is not public, sign in first'')
              else if havePage
              then (case Get ops st page domain of
                      (files, Some e) \<Rightarrow>
                        Normal ((handleMain ops L st r nd' domain (msgOf e))\<lparr>hLog := [LogError e]\<rparr>)
                    | (files, None) \<Rightarrow>
                        if length files > 1 then Normal (handleList ops L st r nd' domain page files)
                        else (case files of
                                [] \<Rightarrow> Panic
                              | f # _ \<Rightarrow>
                                  Normal
                                    \<lparr>hResponse =
                                       \<lparr>rsCookies = [], rsHeaders = gzipHtml,
                                        rsBody = ViewEditTemplate
                                          (viewPage L domain page signedIn domainKey f
                                             (fst (GetSimilar ops st (fID f))))\<rparr>,
                                     hErr = nExecute nd, hStore = st,
                                     hLog = logged (snd (GetSimilar ops st (fID f))),
                                     hSpawned = [f]\<rparr>))
              else (let f = \<lparr>fID = nUUID nd, fSlug = page, fData = [], fCreated = nCreated nd,
                             fModified = nModified nd, fDomain = domain\<rparr>
                    in case Save ops st f of
                         (Some e, st') \<Rightarrow>
                           Normal ((handleMain ops L st' r nd' domain ''domain does not exist'')
                                     \<lparr>hLog := [LogError e]\<rparr>)
                       | (None, st') \<Rightarrow>
                           Normal \<lparr>hResponse = \<lparr>rsCookies = [], rsHeaders = [],
                                     rsBody = HttpRedirect (''/'' @ domain @ ''/'' @ page) 302\<rparr>,
                                   hErr = None, hStore = st', hLog = [], hSpawned = []\<rparr>)))"

text \<open>The goroutine that \<open>handleViewEdit\<close> starts: it runs on the store as it is then.\<close>

definition updateViewsTask :: "'st db \<Rightarrow> 'st \<Rightarrow> File \<Rightarrow> 'st \<times> action list" where
  "updateViewsTask ops st f = (snd (UpdateViews ops st f), logged (fst (UpdateViews ops st f)))"

subsection \<open>handleUpload\<close>







section \<open>The store and the similarity library, from the specification\<close>

text \<open>
  Modelled from the spec: package src/db is missing. The store holds the domains
  (name to password hash and visibility flag), the keys (token to domain and time of
  issue), the documents in creation order, view counters, similarity lists, blobs, the
  engine's clock, the time of the last accepted mutation, the retention window of keys,
  and the documents of the last durable flush.
\<close>

record store =
  domains :: "string \<rightharpoonup> string \<times> bool"
  pwHash :: "string \<Rightarrow> string"
  keys :: "string \<rightharpoonup> string \<times> Time"
  issued :: nat
  docs :: "File list"
  views :: "string \<Rightarrow> nat"
  similar :: "string \<rightharpoonup> string list"
  blobs :: "string \<rightharpoonup> string \<times> bytes"
  clock :: Time
  lastMutation :: Time
  retention :: int
  durable :: "File list"

text \<open>
  Modelled from the spec: \<open>ResolveKey(token) -> domain | NotFoundError\<close>
  (\<open>CheckKey\<close> of src/db).
\<close>

definition spec_CheckKey :: "store \<Rightarrow> string \<Rightarrow> error + string" where
  "spec_CheckKey st k =
     (case keys st k of None \<Rightarrow> Inl (Error ''NotFoundError'') | Some (d, t) \<Rightarrow> Inr d)"

text \<open>
  Modelled from the spec: \<open>Describe(domain) -> (record, isPublic) | NotFoundError\<close>
  (\<open>GetDomainFromName\<close> of src/db); the domain \<open>public\<close> always exists and is public.
\<close>

definition spec_GetDomainFromName :: "store \<Rightarrow> string \<Rightarrow> int \<times> bool \<times> error option" where
  "spec_GetDomainFromName st d =
     (if d = ''public'' then (0, True, None)
      else (case domains st d of
              None \<Rightarrow> (0, False, Some (Error ''NotFoundError''))
            | Some (h, isPublic) \<Rightarrow> (0, isPublic, None)))"

text \<open>
  Modelled from the spec: \<open>RegisterDomain(name, password) -> ok | ConflictError\<close> if the
  name is already registered (\<open>SetDomain\<close> of src/db); a blank password is a
  \<open>ValidationError\<close>; a mutating call updates the last-modified clock.
\<close>

definition spec_SetDomain :: "store \<Rightarrow> string \<Rightarrow> string \<Rightarrow> error option \<times> store" where
  "spec_SetDomain st d pw =
     (if pw = [] then (Some (Error ''ValidationError''), st)
      else if d = ''public'' \<or> domains st d \<noteq> None then (Some (Error ''ConflictError''), st)
      else (None, st\<lparr>domains := (domains st)(d \<mapsto> (pwHash st pw, False)),
                      lastMutation := clock st\<rparr>))"

definition tokenOf :: "nat \<Rightarrow> string" where
  "tokenOf n = replicate (Suc n) (CHR ''k'')"

text \<open>
  Modelled from the spec: \<open>IssueKey(domain, password) -> token | AuthError\<close> verifies the
  password hash and on success creates and returns a new token for the domain; the
  tokens issued before stay valid (\<open>SetKey\<close> of src/db).
\<close>

definition spec_SetKey :: "store \<Rightarrow> string \<Rightarrow> string \<Rightarrow> (error + string) \<times> store" where
  "spec_SetKey st d pw =
     (case domains st d of
        None \<Rightarrow> (Inl (Error ''AuthError''), st)
      | Some (h, isPublic) \<Rightarrow>
          if h = pwHash st pw
          then (Inr (tokenOf (issued st)),
                st\<lparr>keys := (keys st)(tokenOf (issued st) \<mapsto> (d, clock st)),
                   issued := Suc (issued st), lastMutation := clock st\<rparr>)
          else (Inl (Error ''AuthError''), st))"

text \<open>
  Modelled from the spec: \<open>Save(document)\<close> upserts by id, always updates the modified
  timestamp and treats the placeholder of an empty note as empty content (\<open>Save\<close> of
  src/db).
\<close>

definition stored :: "store \<Rightarrow> File \<Rightarrow> File" where
  "stored st f = f\<lparr>fData := (if fData f = introText then [] else fData f), fModified := clock st\<rparr>"

definition upsert :: "File \<Rightarrow> File list \<Rightarrow> File list" where
  "upsert f fs =
     (if fID f \<in> fID ` set fs then map (\<lambda>g. if fID g = fID f then f else g) fs else fs @ [f])"

definition spec_Save :: "store \<Rightarrow> File \<Rightarrow> error option \<times> store" where
  "spec_Save st f = (None, st\<lparr>docs := upsert (stored st f) (docs st), lastMutation := clock st\<rparr>)"

text \<open>
  Modelled from the spec: \<open>Get(slug, domain)\<close> returns every document matching
  (domain, slug), preserving creation order; \<open>Exists(slug, domain)\<close>;
  \<open>GetAll(domain)\<close> (\<open>Get\<close>, \<open>Exists\<close>, \<open>GetAll\<close> of src/db).
\<close>

definition spec_Get :: "store \<Rightarrow> string \<Rightarrow> string \<Rightarrow> File list \<times> error option" where
  "spec_Get st slug domain = (filter (\<lambda>f. fDomain f = domain \<and> fSlug f = slug) (docs st), None)"

definition spec_Exists :: "store \<Rightarrow> string \<Rightarrow> string \<Rightarrow> error + bool" where
  "spec_Exists st slug domain = Inr (fst (spec_Get st slug domain) \<noteq> [])"

definition spec_GetAll :: "store \<Rightarrow> string \<Rightarrow> File list \<times> error option" where
  "spec_GetAll st domain = (filter (\<lambda>f. fDomain f = domain) (docs st), None)"

text \<open>
  Modelled from the spec: \<open>GetMostRecentlyModified(domain, limit)\<close> and
  \<open>GetMostViewed(domain, limit)\<close> (\<open>GetTopX\<close>, \<open>GetTopXMostViews\<close> of src/db).
\<close>

definition spec_GetTopX :: "store \<Rightarrow> string \<Rightarrow> nat \<Rightarrow> File list \<times> error option" where
  "spec_GetTopX st domain n =
     (take n (sort_key (\<lambda>f. - fModified f) (fst (spec_GetAll st domain))), None)"

definition spec_GetTopXMostViews :: "store \<Rightarrow> string \<Rightarrow> nat \<Rightarrow> File list \<times> error option" where
  "spec_GetTopXMostViews st domain n =
     (take n (sort_key (\<lambda>f. - int (views st (fID f))) (fst (spec_GetAll st domain))), None)"

text \<open>
  Modelled from the spec: \<open>IncrementView(document)\<close> bumps the view counter
  (\<open>UpdateViews\<close> of src/db).
\<close>

definition spec_UpdateViews :: "store \<Rightarrow> File \<Rightarrow> error option \<times> store" where
  "spec_UpdateViews st f =
     (None, st\<lparr>views := (views st)(fID f := Suc (views st (fID f))), lastMutation := clock st\<rparr>)"

text \<open>
  Modelled from the spec: the similarity edge of a document is an ordered list of ids,
  persisted against the document and read back as documents (\<open>SetSimilar\<close>,
  \<open>GetSimilar\<close> of src/db).
\<close>

definition spec_SetSimilar :: "store \<Rightarrow> string \<Rightarrow> string list \<Rightarrow> error option \<times> store" where
  "spec_SetSimilar st i ids = (None, st\<lparr>similar := (similar st)(i \<mapsto> ids), lastMutation := clock st\<rparr>)"

definition spec_GetSimilar :: "store \<Rightarrow> string \<Rightarrow> File list \<times> error option" where
  "spec_GetSimilar st i =
     (case similar st i of
        None \<Rightarrow> ([], None)
      | Some ids \<Rightarrow> (concat (map (\<lambda>j. filter (\<lambda>f. fID f = j) (docs st)) ids), None))"

text \<open>
  Modelled from the spec: \<open>Put(id, filename, bytes)\<close> stores the payload under the id
  and is idempotent (\<open>SaveBlob\<close> of src/db).
\<close>

definition spec_SaveBlob :: "store \<Rightarrow> string \<Rightarrow> string \<Rightarrow> bytes \<Rightarrow> error option \<times> store" where
  "spec_SaveBlob st i name content =
     (None, st\<lparr>blobs := (blobs st)(i \<mapsto> (name, content)), lastMutation := clock st\<rparr>)"

text \<open>
  Modelled from the spec: \<open>LastModified()\<close> is the time of the most recent accepted
  mutation, \<open>EvictExpiredKeys()\<close> removes the tokens past the retention window,
  \<open>Flush()\<close> serializes the working set (\<open>LastModified\<close>, \<open>DeleteOldKeys\<close>,
  \<open>DumpSQL\<close> of src/db).
\<close>

definition spec_LastModified :: "store \<Rightarrow> error + Time" where
  "spec_LastModified st = Inr (lastMutation st)"

definition spec_DeleteOldKeys :: "store \<Rightarrow> error option \<times> store" where
  "spec_DeleteOldKeys st =
     (None, st\<lparr>keys := (\<lambda>k. case keys st k of
                                None \<Rightarrow> None
                              | Some (d, t) \<Rightarrow> if t + retention st < clock st then None else Some (d, t))\<rparr>)"

definition spec_DumpSQL :: "store \<Rightarrow> error option \<times> store" where
  "spec_DumpSQL st = (None, st\<lparr>durable := docs st\<rparr>)"

definition spec_db :: "store db" where
  "spec_db =
     \<lparr>CheckKey = spec_CheckKey, Save = spec_Save, Get = spec_Get, GetAll = spec_GetAll,
      Exists = spec_Exists, GetSimilar = spec_GetSimilar, SetSimilar = spec_SetSimilar,
      GetDomainFromName = spec_GetDomainFromName, SetDomain = spec_SetDomain,
      SetKey = spec_SetKey, GetTopX = spec_GetTopX, GetTopXMostViews = spec_GetTopXMostViews,
      UpdateViews = spec_UpdateViews, SaveBlob = spec_SaveBlob,
      LastModified = spec_LastModified, DeleteOldKeys = spec_DeleteOldKeys,
      DumpSQL = spec_DumpSQL\<rparr>"

text \<open>
  Modelled from the spec: package documentsimilarity is missing. The score of two
  documents is the overlap ratio of their token sets; the corpus is ranked by descending
  score, ties in corpus order; an empty corpus gives an empty ranking and no error.
\<close>

fun tokens :: "string \<Rightarrow> string list" where
  "tokens [] = []"
| "tokens (c # cs) =
     (if c = CHR 0x20 then tokens cs
      else (case cs of
              [] \<Rightarrow> [[c]]
            | d # ds \<Rightarrow> if d = CHR 0x20 then [c] # tokens cs
                        else (case tokens cs of [] \<Rightarrow> [[c]] | t # ts \<Rightarrow> (c # t) # ts)))"

definition overlap :: "string \<Rightarrow> string \<Rightarrow> rat" where
  "overlap a b =
     (let A = remdups (tokens a); B = remdups (tokens b);
          common = filter (\<lambda>t. t \<in> set B) A;
          union = A @ filter (\<lambda>t. t \<notin> set A) B
      in if union = [] then 0 else of_nat (length common) / of_nat (length union))"

definition scored :: "string list \<Rightarrow> string \<Rightarrow> Similarity list" where
  "scored documents d =
     map (\<lambda>i. \<lparr>simIndex = int i, simScore = overlap d (documents ! i)\<rparr>) [0..<length documents]"

definition spec_New :: "string list \<Rightarrow> error option" where
  "spec_New documents = None"

definition ranking :: "string list \<Rightarrow> string \<Rightarrow> Similarity list" where
  "ranking documents d = sort_key (\<lambda>s. - simScore s) (scored documents d)"

definition spec_JaccardSimilarity :: "string list \<Rightarrow> string \<Rightarrow> error + Similarity list" where
  "spec_JaccardSimilarity documents d = Inr (ranking documents d)"

definition withSimilarity :: "lib \<Rightarrow> lib" where
  "withSimilarity L = L\<lparr>dsNew := spec_New, dsJaccardSimilarity := spec_JaccardSimilarity\<rparr>"

text \<open>The order of the ranking: a higher score first, equal scores in corpus order.\<close>

definition ranksBefore :: "Similarity \<Rightarrow> Similarity \<Rightarrow> bool" where
  "ranksBefore a b =
     (simScore a > simScore b \<or> (simScore a = simScore b \<and> simIndex a < simIndex b))"

section \<open>Concrete inputs\<close>

text \<open>
  A library to apply the theorems to concrete inputs: lower case on ASCII letters,
  stand-ins for the digest, the compression, the markdown renderer and the escaping,
  and maps visited in the order of their list.
\<close>

definition lowerASCII :: "string \<Rightarrow> string" where
  "lowerASCII s =
     map (\<lambda>c. if 65 \<le> (of_char c :: nat) \<and> (of_char c :: nat) \<le> 90
              then char_of ((of_char c :: nat) + 32) else c) s"

definition sampleLib :: lib where
  "sampleLib =
     \<lparr>ToLower = lowerASCII, RenderMarkdownToHTML = (\<lambda>s. s),
      sha256 = (\<lambda>bs. [of_nat (length bs), of_nat (length bs) + 171]), gzip = rev,
      QueryEscape = (\<lambda>s. s), dsNew = spec_New, dsJaccardSimilarity = spec_JaccardSimilarity,
      mapOrder = (\<lambda>m. m)\<rparr>"

definition store0 :: store where
  "store0 =
     \<lparr>domains = Map.empty, pwHash = rev, keys = Map.empty, issued = 0, docs = [],
      views = (\<lambda>_. 0), similar = Map.empty, blobs = Map.empty, clock = 1000,
      lastMutation = 0, retention = 100, durable = []\<rparr>"

section \<open>What a run of the connection shows\<close>

definition statusOf :: "status \<times> session \<times> 'st \<times> action list \<Rightarrow> status" where
  "statusOf r = fst r"
definition sessionOf :: "status \<times> session \<times> 'st \<times> action list \<Rightarrow> session" where
  "sessionOf r = fst (snd r)"
definition storeOf :: "status \<times> session \<times> 'st \<times> action list \<Rightarrow> 'st" where
  "storeOf r = fst (snd (snd r))"
definition actionsOf :: "status \<times> session \<times> 'st \<times> action list \<Rightarrow> action list" where
  "actionsOf r = snd (snd (snd r))"

fun written :: "action list \<Rightarrow> Payload list" where
  "written [] = []"
| "written (WriteJSON q # as) = q # written as"
| "written (_ # as) = written as"

fun savesOf :: "action list \<Rightarrow> File list" where
  "savesOf [] = []"
| "savesOf (CallSave f # as) = f # savesOf as"
| "savesOf (_ # as) = savesOf as"

fun indexedOf :: "action list \<Rightarrow> (string \<times> string) list" where
  "indexedOf [] = []"
| "indexedOf (CallAddSimilar d i # as) = (d, i) # indexedOf as"
| "indexedOf (_ # as) = indexedOf as"

definition firstValid :: "'st db \<Rightarrow> 'st \<Rightarrow> Msg \<Rightarrow> bool" where
  "firstValid ops st m =
     (m_domain m = Some ''public'' \<or>
      (case CheckKey ops st (case m_domain_key m of None \<Rightarrow> [] | Some k \<Rightarrow> k) of
         Inl _ \<Rightarrow> False | Inr _ \<Rightarrow> True))"

fun delivered :: "event \<Rightarrow> bool" where
  "delivered (Receives m now None) = True"
| "delivered _ = False"


text \<open>
  Concrete inputs: a document of the domain \<open>acme\<close>, a store that holds it with a key
  of the domain, and a message that saves a second document under the same slug.
\<close>

definition docA :: File where
  "docA = \<lparr>fID = ''a'', fSlug = ''notes'', fData = ''first'', fCreated = 1, fModified = 1,
            fDomain = ''acme''\<rparr>"

definition storeAcme :: store where
  "storeAcme = store0\<lparr>domains := [''acme'' \<mapsto> (rev ''s3cr3t'', False)],
                       keys := [''k1'' \<mapsto> (''acme'', 0)], docs := [docA]\<rparr>"

definition msgB :: Msg where
  "msgB = Msg0\<lparr>m_id := Some ''b'', m_domain_key := Some ''k1'', m_domain := Some ''acme'',
               m_data := Some '' second '', m_slug := Some ''notes''\<rparr>"


text \<open>
  Messages for concrete runs: one whose key does not resolve, one that saves a document
  of the domain \<open>public\<close>, and one that carries no id.
\<close>

definition msgBad :: Msg where
  "msgBad = Msg0\<lparr>m_id := Some ''b'', m_domain_key := Some ''nope'', m_domain := Some ''acme'',
                 m_data := Some ''text'', m_slug := Some ''notes''\<rparr>"

definition msgFirst :: Msg where
  "msgFirst = Msg0\<lparr>m_id := Some ''a'', m_domain := Some ''public'', m_data := Some ''x'',
                   m_slug := Some ''s''\<rparr>"

definition msgNoId :: Msg where
  "msgNoId = Msg0\<lparr>m_data := Some ''y''\<rparr>"

section \<open>What a round of the dump loop shows\<close>

definition tickPanic :: "error option \<times> 'st \<times> Time \<times> action list \<Rightarrow> error option" where
  "tickPanic r = fst r"

definition tickStore :: "error option \<times> 'st \<times> Time \<times> action list \<Rightarrow> 'st" where
  "tickStore r = fst (snd r)"

definition tickDumped :: "error option \<times> 'st \<times> Time \<times> action list \<Rightarrow> Time" where
  "tickDumped r = fst (snd (snd r))"

definition tickActions :: "error option \<times> 'st \<times> Time \<times> action list \<Rightarrow> action list" where
  "tickActions r = snd (snd (snd r))"

text \<open>
  Rounds for concrete runs, in nanoseconds: one that finds the store idle for five
  seconds, fifteen seconds after the last dump, and one that finds a modification made
  one second before.
\<close>

definition tickIdle :: "store tick" where
  "tickIdle = \<lparr>activity = (\<lambda>x. x\<lparr>lastMutation := 115000000000\<rparr>),
               sinceModifiedAt = 120000000000, sinceDumpedAt = 120000000001,
               dumpedAt = 120000000002\<rparr>"

definition tickBusy :: "store tick" where
  "tickBusy = \<lparr>activity = (\<lambda>x. x\<lparr>lastMutation := 119000000000\<rparr>),
               sinceModifiedAt = 120000000000, sinceDumpedAt = 120000000001,
               dumpedAt = 120000000002\<rparr>"

section \<open>More concrete inputs\<close>

text \<open>
  A store with four documents of the domain \<open>acme\<close>, for a concrete run of the indexer.
\<close>

definition doc :: "string \<Rightarrow> string \<Rightarrow> File" where
  "doc i d = \<lparr>fID = i, fSlug = i, fData = d, fCreated = 1, fModified = 1, fDomain = ''acme''\<rparr>"

definition storeFour :: store where
  "storeFour = store0\<lparr>docs := [doc ''d1'' ''red green blue'', doc ''d2'' ''red green'',
                                 doc ''d3'' ''yellow'', doc ''d4'' ''green red'']\<rparr>"

text \<open>Requests for concrete runs of the HTTP handlers.\<close>

definition nd0 :: Nondet where
  "nd0 = \<lparr>nUUID = ''u1'', nCreated = 1, nModified = 2, nNow = 3, nExecute = None\<rparr>"



text \<open>
  A store with seven documents of the domain, and two libraries: one that returns the
  ranking in reverse, one whose \<open>New\<close> fails.
\<close>

definition storeSeven :: store where
  "storeSeven = store0\<lparr>docs := [doc ''o1'' ''a'', doc ''o2'' ''a b'', doc ''t'' ''a b c d e f'',
                                  doc ''o3'' ''a b c'', doc ''o4'' ''a b c d'',
                                  doc ''o5'' ''a b c d e'', doc ''o6'' ''f e d c b a'']\<rparr>"

definition reversedLib :: lib where
  "reversedLib = sampleLib\<lparr>dsJaccardSimilarity := (\<lambda>documents d. Inr (rev (ranking documents d)))\<rparr>"

definition failingLib :: lib where
  "failingLib = sampleLib\<lparr>dsNew := (\<lambda>documents. Some (Error ''no corpus''))\<rparr>"

text \<open>
  A later idle round, and a store whose \<open>DumpSQL\<close> fails.
\<close>

definition tickLater :: "store tick" where
  "tickLater = \<lparr>activity = (\<lambda>x. x\<lparr>lastMutation := 235000000000\<rparr>),
                sinceModifiedAt = 240000000000, sinceDumpedAt = 240000000001,
                dumpedAt = 240000000002\<rparr>"

definition fullDisk :: "store db" where
  "fullDisk = spec_db\<lparr>DumpSQL := (\<lambda>x. (Some (Error ''disk full''), x))\<rparr>"

text \<open>A message that carries an id and no data.\<close>

definition msgIdOnly :: Msg where
  "msgIdOnly = Msg0\<lparr>m_id := Some ''a''\<rparr>"

text \<open>
  A login for a domain that is not registered, a view by a client signed in to
  \<open>acme\<close>, and a store whose \<open>UpdateViews\<close> fails.
\<close>

definition reqLogin :: Request where
  "reqLogin = \<lparr>rCookie = None,
               rForm = (\<lambda>k. if k = ''domain'' then '' Zeta '' else
                             if k = ''password'' then ''s3cr3t'' else []),
               rQuery = (\<lambda>_. []), rFile = Inl (Error ''no file'')\<rparr>"

definition reqPublic :: Request where
  "reqPublic = \<lparr>rCookie = None,
                rForm = (\<lambda>k. if k = ''domain'' then '' PUBLIC '' else
                              if k = ''password'' then ''s3cr3t'' else []),
                rQuery = (\<lambda>_. []), rFile = Inl (Error ''no file'')\<rparr>"

definition reqView :: Request where
  "reqView = \<lparr>rCookie = Some ''k1'', rForm = (\<lambda>_. []), rQuery = (\<lambda>_. []),
              rFile = Inl (Error ''no file'')\<rparr>"

definition lockedViews :: "store db" where
  "lockedViews = spec_db\<lparr>UpdateViews := (\<lambda>x f. (Some (Error ''locked''), x))\<rparr>"

section \<open>Properties\<close>

subsection \<open>The live-sync handler\<close>

lemma written_append: "written (as @ bs) = written as @ written bs"
  by (induction as rule: written.induct) auto
lemma savesOf_append: "savesOf (as @ bs) = savesOf as @ savesOf bs"
  by (induction as rule: savesOf.induct) auto
lemma indexedOf_append: "indexedOf (as @ bs) = indexedOf as @ indexedOf bs"
  by (induction as rule: indexedOf.induct) auto
lemma written_logged: "written (logged e) = []"
  by (cases e) (auto simp: logged_def)
lemma savesOf_logged: "savesOf (logged e) = []"
  by (cases e) (auto simp: logged_def)
lemma indexedOf_logged: "indexedOf (logged e) = []"
  by (cases e) (auto simp: logged_def)

lemma onMessage_refused:
  assumes "pID (ReadJSON m (payload s)) = [] \<or> \<not> checkDomain ops st s (ReadJSON m (payload s))"
  shows "onMessage ops m now w s st =
           (afterWrite w,
            s\<lparr>domainChecked := True,
              domainValidated := checkDomain ops st s (ReadJSON m (payload s)),
              payload := ReadJSON m (payload s)\<rparr>,
            st, [WriteJSON notSaving])"
  using assms by (auto simp: onMessage_def Let_def)

lemma onMessage_saved:
  assumes "pID (ReadJSON m (payload s)) \<noteq> []" and "checkDomain ops st s (ReadJSON m (payload s))"
  shows "onMessage ops m now w s st =
           (afterWrite w,
            s\<lparr>domainChecked := True, domainValidated := True,
              payload := defaultDomain (ReadJSON m (payload s)),
              editFile := newEditFile (defaultDomain (ReadJSON m (payload s))) now\<rparr>,
            snd (Save ops st (newEditFile (defaultDomain (ReadJSON m (payload s))) now)),
            CallSave (newEditFile (defaultDomain (ReadJSON m (payload s))) now) #
            logged (fst (Save ops st (newEditFile (defaultDomain (ReadJSON m (payload s))) now))) @
            [WriteJSON (ack (defaultDomain (ReadJSON m (payload s)))
               (fst (Get ops (snd (Save ops st (newEditFile (defaultDomain (ReadJSON m (payload s))) now)))
                      (pSlug (defaultDomain (ReadJSON m (payload s))))
                      (pDomain (defaultDomain (ReadJSON m (payload s)))))))])"
  using assms by (simp add: onMessage_def Let_def)

lemma defaultDomain_keeps [simp]:
  "pID (defaultDomain q) = pID q" "pSlug (defaultDomain q) = pSlug q" "pData (defaultDomain q) = pData q"
  by (simp_all add: defaultDomain_def)

lemma ReadJSON_present:
  "m_id m = Some i \<Longrightarrow> pID (ReadJSON m q) = i"
  "m_slug m = Some sl \<Longrightarrow> pSlug (ReadJSON m q) = sl"
  "m_data m = Some d \<Longrightarrow> pData (ReadJSON m q) = d"
  "m_domain m = Some dm \<Longrightarrow> pDomain (ReadJSON m q) = dm"
  by (simp_all add: ReadJSON_def)

lemma two_matches:
  assumes "a \<in> set xs" "b \<in> set xs" "a \<noteq> b" "P a" "P b"
  shows "2 \<le> length (filter P xs)"
proof -
  have "{a, b} \<subseteq> set (filter P xs)" using assms by auto
  then have "card {a, b} \<le> card (set (filter P xs))" by (intro card_mono) auto
  also have "\<dots> \<le> length (filter P xs)" by (rule card_length)
  finally show ?thesis using assms(3) by simp
qed

lemma upsert_new: "f \<in> set (upsert f fs)"
  by (auto simp: upsert_def image_iff)

lemma upsert_old: "a \<in> set fs \<Longrightarrow> fID a \<noteq> fID f \<Longrightarrow> a \<in> set (upsert f fs)"
  by (auto simp: upsert_def image_iff)

lemma spec_collision:
  assumes "a \<in> set (docs st)" "fID a \<noteq> fID f" "fSlug a = fSlug f" "fDomain a = fDomain f"
  shows "2 \<le> length (fst (spec_Get (snd (spec_Save st f)) (fSlug f) (fDomain f)))"
proof -
  let ?g = "stored st f"
  have "a \<in> set (upsert ?g (docs st))" using assms by (intro upsert_old) (auto simp: stored_def)
  moreover have "?g \<in> set (upsert ?g (docs st))" by (rule upsert_new)
  moreover have "a \<noteq> ?g" using assms(2) by (auto simp: stored_def)
  moreover have "fDomain a = fDomain f \<and> fSlug a = fSlug f" using assms by simp
  moreover have "fDomain ?g = fDomain f \<and> fSlug ?g = fSlug f" by (simp add: stored_def)
  ultimately have "2 \<le> length (filter (\<lambda>x. fDomain x = fDomain f \<and> fSlug x = fSlug f)
                                   (upsert ?g (docs st)))"
    by (rule two_matches)
  then show ?thesis by (simp add: spec_Get_def spec_Save_def)
qed

text \<open>
  C1. A message that carries a non-empty id on a validated connection is saved, and the
  reply carries that id, the slug of the saved record and the message \<open>unique_slug\<close>;
  its success flag is true exactly when \<open>Get\<close> of that slug and domain, on the store
  as \<open>Save\<close> left it, returns fewer than two documents. On the store of the
  specification, when a document with another id already has the domain and slug, the
  flag is false and \<open>Get\<close> returns at least two documents.
\<close>

theorem live_sync_ack:
  "(checkDomain ops st s (ReadJSON m (payload s)) \<and> m_id m = Some i \<and> i \<noteq> [] \<longrightarrow>
      (let f = newEditFile (defaultDomain (ReadJSON m (payload s))) now;
           r = onMessage ops m now w s st
       in savesOf (actionsOf r) = [f] \<and> storeOf r = snd (Save ops st f) \<and> fID f = i \<and>
          (\<forall>sl. m_slug m = Some sl \<longrightarrow> fSlug f = sl) \<and>
          fDomain f = (if pDomain (ReadJSON m (payload s)) = [] then ''public''
                       else pDomain (ReadJSON m (payload s))) \<and>
          written (actionsOf r) =
            [\<lparr>pID = i, pDomainKey = [], pDomain = [], pData = [], pSlug = fSlug f,
              pMessage = ''unique_slug'',
              pSuccess = (length (fst (Get ops (storeOf r) (fSlug f) (fDomain f))) < 2)\<rparr>])) \<and>
   (checkDomain spec_db st' s' (ReadJSON m' (payload s')) \<and> m_id m' = Some i' \<and> i' \<noteq> [] \<and>
    a \<in> set (docs st') \<and> fID a \<noteq> i' \<and>
    fSlug a = pSlug (ReadJSON m' (payload s')) \<and>
    fDomain a = pDomain (defaultDomain (ReadJSON m' (payload s'))) \<longrightarrow>
      map pSuccess (written (actionsOf (onMessage spec_db m' now' w' s' st'))) = [False] \<and>
      2 \<le> length (fst (spec_Get (storeOf (onMessage spec_db m' now' w' s' st'))
                          (pSlug (ReadJSON m' (payload s')))
                          (pDomain (defaultDomain (ReadJSON m' (payload s')))))))"
proof (intro conjI impI)
  assume h: "checkDomain ops st s (ReadJSON m (payload s)) \<and> m_id m = Some i \<and> i \<noteq> []"
  then have id: "pID (ReadJSON m (payload s)) = i" by (simp add: ReadJSON_present)
  with h have ne: "pID (ReadJSON m (payload s)) \<noteq> []" by simp
  show "let f = newEditFile (defaultDomain (ReadJSON m (payload s))) now;
           r = onMessage ops m now w s st
       in savesOf (actionsOf r) = [f] \<and> storeOf r = snd (Save ops st f) \<and> fID f = i \<and>
          (\<forall>sl. m_slug m = Some sl \<longrightarrow> fSlug f = sl) \<and>
          fDomain f = (if pDomain (ReadJSON m (payload s)) = [] then ''public''
                       else pDomain (ReadJSON m (payload s))) \<and>
          written (actionsOf r) =
            [\<lparr>pID = i, pDomainKey = [], pDomain = [], pData = [], pSlug = fSlug f,
              pMessage = ''unique_slug'',
              pSuccess = (length (fst (Get ops (storeOf r) (fSlug f) (fDomain f))) < 2)\<rparr>]"
    using h id
    by (simp add: onMessage_saved [OF ne] Let_def actionsOf_def storeOf_def savesOf_append
        savesOf_logged written_append written_logged newEditFile_def ack_def Payload0_def
        ReadJSON_present defaultDomain_def)
next
  assume h: "checkDomain spec_db st' s' (ReadJSON m' (payload s')) \<and> m_id m' = Some i' \<and> i' \<noteq> [] \<and>
    a \<in> set (docs st') \<and> fID a \<noteq> i' \<and>
    fSlug a = pSlug (ReadJSON m' (payload s')) \<and>
    fDomain a = pDomain (defaultDomain (ReadJSON m' (payload s')))"
  let ?q = "defaultDomain (ReadJSON m' (payload s'))"
  let ?f = "newEditFile ?q now'"
  from h have id: "pID (ReadJSON m' (payload s')) = i'" by (simp add: ReadJSON_present)
  with h have ne: "pID (ReadJSON m' (payload s')) \<noteq> []" by simp
  have f: "fID ?f = i'" "fSlug ?f = pSlug (ReadJSON m' (payload s'))" "fDomain ?f = pDomain ?q"
    using id by (simp_all add: newEditFile_def)
  have two: "2 \<le> length (fst (spec_Get (snd (spec_Save st' ?f)) (fSlug ?f) (fDomain ?f)))"
    using h f by (intro spec_collision [of a]) auto
  have sv: "Save spec_db = spec_Save" "Get spec_db = spec_Get" by (simp_all add: spec_db_def)
  show "map pSuccess (written (actionsOf (onMessage spec_db m' now' w' s' st'))) = [False]"
    using two f h
    by (simp add: onMessage_saved [OF ne] sv actionsOf_def written_append written_logged ack_def)
  show "2 \<le> length (fst (spec_Get (storeOf (onMessage spec_db m' now' w' s' st'))
                          (pSlug (ReadJSON m' (payload s')))
                          (pDomain (defaultDomain (ReadJSON m' (payload s'))))))"
    using two f h by (simp add: onMessage_saved [OF ne] sv storeOf_def)
qed


lemmas concrete_defs = docA_def storeAcme_def msgB_def store0_def Msg0_def session0_def Payload0_def
  File0_def ReadJSON_def checkDomain_def spec_db_def spec_CheckKey_def defaultDomain_def

theorem live_sync_ack_witness:
  "checkDomain spec_db storeAcme session0 (ReadJSON msgB (payload session0)) \<and>
   m_id msgB = Some ''b'' \<and> docA \<in> set (docs storeAcme) \<and> fID docA \<noteq> ''b'' \<and>
   map pID (written (actionsOf (onMessage spec_db msgB 7 None session0 storeAcme))) = [''b''] \<and>
   map pSuccess (written (actionsOf (onMessage spec_db msgB 7 None session0 storeAcme))) = [False]"
proof -
  have h1: "checkDomain spec_db storeAcme session0 (ReadJSON msgB (payload session0)) \<and>
            m_id msgB = Some ''b'' \<and> ''b'' \<noteq> []"
    by (simp add: concrete_defs)
  have h2: "docA \<in> set (docs storeAcme) \<and> fID docA \<noteq> ''b'' \<and>
            fSlug docA = pSlug (ReadJSON msgB (payload session0)) \<and>
            fDomain docA = pDomain (defaultDomain (ReadJSON msgB (payload session0)))"
    by (simp add: concrete_defs)
  note t = live_sync_ack [where ops = spec_db and st = storeAcme and s = session0 and m = msgB
      and i = "''b''" and now = 7 and w = None and st' = storeAcme and s' = session0
      and m' = msgB and i' = "''b''" and a = docA and now' = 7 and w' = None]
  from t h1 have "map pID (written (actionsOf (onMessage spec_db msgB 7 None session0 storeAcme))) = [''b'']"
    by (simp add: Let_def)
  moreover from t h1 h2
  have "map pSuccess (written (actionsOf (onMessage spec_db msgB 7 None session0 storeAcme))) = [False]"
    by blast
  ultimately show ?thesis using h1 h2 by blast
qed

lemma wsLoop_Receives:
  "wsLoop ops L (Receives m now w # es) s st =
     (if w = None
      then (statusOf (wsLoop ops L es (sessionOf (onMessage ops m now w s st))
                        (storeOf (onMessage ops m now w s st))),
            sessionOf (wsLoop ops L es (sessionOf (onMessage ops m now w s st))
                        (storeOf (onMessage ops m now w s st))),
            storeOf (wsLoop ops L es (sessionOf (onMessage ops m now w s st))
                        (storeOf (onMessage ops m now w s st))),
            actionsOf (onMessage ops m now w s st) @
            actionsOf (wsLoop ops L es (sessionOf (onMessage ops m now w s st))
                        (storeOf (onMessage ops m now w s st))))
      else onMessage ops m now w s st)"
  by (cases w)
     (auto simp: onMessage_def Let_def afterWrite_def statusOf_def sessionOf_def storeOf_def
        actionsOf_def split: prod.splits)

declare wsLoop.simps(3) [simp del]

lemma proj_simps [simp]:
  "statusOf (a, b, c, d) = a" "sessionOf (a, b, c, d) = b" "storeOf (a, b, c, d) = c"
  "actionsOf (a, b, c, d) = d"
  by (simp_all add: statusOf_def sessionOf_def storeOf_def actionsOf_def)

lemma onMessage_flags:
  "domainChecked (sessionOf (onMessage ops m now w s st))"
  "domainValidated (sessionOf (onMessage ops m now w s st)) =
     checkDomain ops st s (ReadJSON m (payload s))"
  by (auto simp: onMessage_def Let_def sessionOf_def)

lemma checkDomain_checked: "domainChecked s \<Longrightarrow> checkDomain ops st s q = domainValidated s"
  by (simp add: checkDomain_def)

lemma checkDomain_first: "checkDomain ops st session0 (ReadJSON m Payload0) = firstValid ops st m"
  by (auto simp: checkDomain_def session0_def ReadJSON_def Payload0_def firstValid_def
      split: option.splits sum.splits)

lemma onReadError_session: "sessionOf (onReadError ops L s st) = s"
  by (auto simp: onReadError_def sessionOf_def split: ret.splits)

lemma checked_run:
  "domainChecked s \<Longrightarrow>
     domainValidated (sessionOf (wsLoop ops L es s st)) = domainValidated s \<and>
     domainChecked (sessionOf (wsLoop ops L es s st))"
proof (induction es arbitrary: s st)
  case Nil
  then show ?case by simp
next
  case (Cons e es)
  show ?case
  proof (cases e)
    case (ReadFails x)
    then show ?thesis using Cons.prems by (simp add: onReadError_session)
  next
    case (Receives m now w)
    have c: "domainChecked (sessionOf (onMessage ops m now w s st))"
      and v: "domainValidated (sessionOf (onMessage ops m now w s st)) = domainValidated s"
      using Cons.prems by (simp_all add: onMessage_flags checkDomain_checked)
    note ih = Cons.IH [OF c, of "storeOf (onMessage ops m now w s st)"]
    show ?thesis
    proof (cases w)
      case None
      then show ?thesis using ih c v unfolding Receives by (simp add: wsLoop_Receives)
    next
      case (Some x)
      then show ?thesis using c v unfolding Receives by (simp add: wsLoop_Receives)
    qed
  qed
qed

lemma refused_when_stuck:
  assumes "domainChecked s" "\<not> domainValidated s"
  shows "onMessage ops m now w s st =
           (afterWrite w, s\<lparr>domainChecked := True, domainValidated := False,
                            payload := ReadJSON m (payload s)\<rparr>, st, [WriteJSON notSaving])"
  using assms by (simp add: onMessage_refused checkDomain_checked)

lemma stuck_run:
  assumes "domainChecked s" "\<not> domainValidated s" "fID (editFile s) = []"
  shows "storeOf (wsLoop ops L es s st) = st \<and>
         set (actionsOf (wsLoop ops L es s st)) \<subseteq> {WriteJSON notSaving} \<and>
         (list_all delivered es \<longrightarrow>
            statusOf (wsLoop ops L es s st) = Reading \<and>
            actionsOf (wsLoop ops L es s st) = replicate (length es) (WriteJSON notSaving))"
  using assms
proof (induction es arbitrary: s)
  case Nil
  then show ?case by (simp add: storeOf_def actionsOf_def statusOf_def)
next
  case (Cons e es)
  show ?case
  proof (cases e)
    case (ReadFails x)
    then show ?thesis using Cons.prems
      by (simp add: onReadError_def)
  next
    case (Receives m now w)
    let ?s1 = "s\<lparr>domainChecked := True, domainValidated := False, payload := ReadJSON m (payload s)\<rparr>"
    have om: "onMessage ops m now w s st = (afterWrite w, ?s1, st, [WriteJSON notSaving])"
      using Cons.prems by (intro refused_when_stuck)
    have ih: "storeOf (wsLoop ops L es ?s1 st) = st \<and>
         set (actionsOf (wsLoop ops L es ?s1 st)) \<subseteq> {WriteJSON notSaving} \<and>
         (list_all delivered es \<longrightarrow>
            statusOf (wsLoop ops L es ?s1 st) = Reading \<and>
            actionsOf (wsLoop ops L es ?s1 st) = replicate (length es) (WriteJSON notSaving))"
      using Cons.prems by (intro Cons.IH) simp_all
    show ?thesis
    proof (cases w)
      case None
      then show ?thesis using ih unfolding Receives wsLoop_Receives om
        by (simp add: afterWrite_def)
    next
      case (Some x)
      then show ?thesis unfolding Receives wsLoop_Receives om
        by (simp add: afterWrite_def)
    qed
  qed
qed

lemma only_notSaving:
  assumes "set as \<subseteq> {WriteJSON notSaving}"
  shows "savesOf as = [] \<and> indexedOf as = [] \<and> set (written as) \<subseteq> {notSaving}"
  using assms by (induction as) auto

text \<open>
  C2. The validated flag of a connection is decided by its first message alone: it is set
  exactly when the domain of that message is \<open>public\<close> or its key resolves, whatever
  comes after. When the first message does not validate, no later event changes the
  store, calls \<open>Save\<close> or starts the indexer, every reply is \<open>not saving\<close>, and
  as long as the replies are delivered the handler goes on reading: each message is
  answered and the connection stays open.
\<close>

theorem validation_once:
  "domainValidated (sessionOf (handleWebsocket ops L (Receives m now w # es) st)) = firstValid ops st m \<and>
   (\<not> firstValid ops st m \<longrightarrow>
      storeOf (handleWebsocket ops L (Receives m now w # es) st) = st \<and>
      savesOf (actionsOf (handleWebsocket ops L (Receives m now w # es) st)) = [] \<and>
      indexedOf (actionsOf (handleWebsocket ops L (Receives m now w # es) st)) = [] \<and>
      set (written (actionsOf (handleWebsocket ops L (Receives m now w # es) st))) \<subseteq> {notSaving} \<and>
      (w = None \<and> list_all delivered es \<longrightarrow>
         statusOf (handleWebsocket ops L (Receives m now w # es) st) = Reading \<and>
         length (written (actionsOf (handleWebsocket ops L (Receives m now w # es) st))) = Suc (length es)))"
proof -
  let ?es = "Receives m now w # es"
  have chk: "domainChecked session0 = False" "payload session0 = Payload0" "fID (editFile session0) = []"
    by (simp_all add: session0_def File0_def)
  have first: "domainValidated (sessionOf (wsLoop ops L ?es session0 st)) = firstValid ops st m"
  proof (cases w)
    case None
    have "domainValidated (sessionOf (wsLoop ops L es (sessionOf (onMessage ops m now w session0 st))
             (storeOf (onMessage ops m now w session0 st)))) =
          domainValidated (sessionOf (onMessage ops m now w session0 st))"
      using checked_run [where s = "sessionOf (onMessage ops m now w session0 st)" and ops = ops
          and L = L and es = es and st = "storeOf (onMessage ops m now w session0 st)",
          OF onMessage_flags(1)]
      by simp
    then show ?thesis unfolding wsLoop_Receives
      by (simp add: None onMessage_flags chk checkDomain_first)
  next
    case (Some x)
    then show ?thesis
      by (simp add: wsLoop_Receives onMessage_flags chk checkDomain_first)
  qed
  have rest: "storeOf (wsLoop ops L ?es session0 st) = st \<and>
      set (actionsOf (wsLoop ops L ?es session0 st)) \<subseteq> {WriteJSON notSaving} \<and>
      (w = None \<and> list_all delivered es \<longrightarrow>
         statusOf (wsLoop ops L ?es session0 st) = Reading \<and>
         actionsOf (wsLoop ops L ?es session0 st) = replicate (Suc (length es)) (WriteJSON notSaving))"
    if nv: "\<not> firstValid ops st m"
  proof -
    let ?s1 = "session0\<lparr>domainChecked := True, domainValidated := False, payload := ReadJSON m Payload0\<rparr>"
    have om: "onMessage ops m now w session0 st = (afterWrite w, ?s1, st, [WriteJSON notSaving])"
      using nv onMessage_refused [of m session0 ops st now w]
      by (simp add: chk checkDomain_first)
    have run: "storeOf (wsLoop ops L es ?s1 st) = st \<and>
         set (actionsOf (wsLoop ops L es ?s1 st)) \<subseteq> {WriteJSON notSaving} \<and>
         (list_all delivered es \<longrightarrow>
            statusOf (wsLoop ops L es ?s1 st) = Reading \<and>
            actionsOf (wsLoop ops L es ?s1 st) = replicate (length es) (WriteJSON notSaving))"
      by (intro stuck_run) (simp_all add: chk)
    show ?thesis
    proof (cases w)
      case None
      then show ?thesis using run unfolding wsLoop_Receives om
        by (simp add: afterWrite_def)
    next
      case (Some x)
      then show ?thesis unfolding wsLoop_Receives om
        by (simp add: afterWrite_def)
    qed
  qed
  have len: "length (written (replicate n (WriteJSON notSaving))) = n" for n
    by (induction n) auto
  show ?thesis
    using first rest only_notSaving [of "actionsOf (wsLoop ops L ?es session0 st)"]
    by (auto simp: handleWebsocket_def len)
qed

lemmas run_defs = handleWebsocket_def wsLoop_Receives onMessage_def onReadError_def addSimilar_def
  newEditFile_def ack_def notSaving_def afterWrite_def logged_def normalize_def
  spec_Save_def spec_Get_def spec_GetAll_def spec_SetSimilar_def stored_def upsert_def
  firstValid_def msgBad_def msgFirst_def msgNoId_def sampleLib_def spec_New_def
  spec_JaccardSimilarity_def ranking_def scored_def othersOf_def maindocumentOf_def truncate5_def
  similarIdsOf_def inRange_def

lemma ts1: "TrimSpace ''x'' = ''x''" "TrimSpace ''y'' = ''y''" "TrimSpace '' second '' = ''second''"
  "TrimSpace ''text'' = ''text''"
  by code_simp+

lemma ne1: "''x'' \<noteq> introText" "''y'' \<noteq> introText" "''second'' \<noteq> introText" "''text'' \<noteq> introText"
  by (simp_all add: introText_def)

subsection \<open>Concrete runs of the live-sync handler\<close>

theorem validation_once_witness:
  "\<not> firstValid spec_db storeAcme msgBad \<and> list_all delivered [Receives msgB 7 None] \<and>
   storeOf (handleWebsocket spec_db sampleLib [Receives msgBad 6 None, Receives msgB 7 None] storeAcme)
     = storeAcme \<and>
   statusOf (handleWebsocket spec_db sampleLib [Receives msgBad 6 None, Receives msgB 7 None] storeAcme)
     = Reading \<and>
   length (written (actionsOf (handleWebsocket spec_db sampleLib
      [Receives msgBad 6 None, Receives msgB 7 None] storeAcme))) = 2"
proof -
  have h: "\<not> firstValid spec_db storeAcme msgBad"
    by (simp add: firstValid_def msgBad_def concrete_defs)
  have d: "list_all delivered [Receives msgB 7 None]" by simp
  from validation_once [of spec_db sampleLib msgBad 6 None "[Receives msgB 7 None]" storeAcme] h d
  show ?thesis by simp
qed

text \<open>
  C6. A run on which the claim fails: after a message that saved the document \<open>a\<close>,
  a message that carries no id is decoded over the first one, keeps its id and slug, and
  is saved; the reply is \<open>unique_slug\<close>, not \<open>not saving\<close>.
\<close>

theorem missing_id_is_saved:
  "m_id msgNoId = None \<and>
   savesOf (actionsOf (handleWebsocket spec_db sampleLib
      [Receives msgFirst 5 None, Receives msgNoId 6 None] store0)) =
     [\<lparr>fID = ''a'', fSlug = ''s'', fData = ''x'', fCreated = 5, fModified = 0, fDomain = ''public''\<rparr>,
      \<lparr>fID = ''a'', fSlug = ''s'', fData = ''y'', fCreated = 6, fModified = 0, fDomain = ''public''\<rparr>] \<and>
   map pMessage (written (actionsOf (handleWebsocket spec_db sampleLib
      [Receives msgFirst 5 None, Receives msgNoId 6 None] store0))) = [''unique_slug'', ''unique_slug''] \<and>
   map fData (docs (storeOf (handleWebsocket spec_db sampleLib
      [Receives msgFirst 5 None, Receives msgNoId 6 None] store0))) = [''y'']"
  by (simp add: run_defs concrete_defs ts1 ne1 zeroTime_def Let_def)

text \<open>
  C7. A run on which the claim fails: a document of the domain \<open>acme\<close> is saved and
  the reply cannot be written; the handler leaves the loop and the indexer is not called.
  When instead the next read fails, the indexer is called for that document.
\<close>

theorem write_failure_skips_indexer:
  "statusOf (handleWebsocket spec_db sampleLib [Receives msgB 7 (Some (Error ''write''))] storeAcme) = Closed \<and>
   map fID (savesOf (actionsOf (handleWebsocket spec_db sampleLib
      [Receives msgB 7 (Some (Error ''write''))] storeAcme))) = [''b''] \<and>
   map fDomain (savesOf (actionsOf (handleWebsocket spec_db sampleLib
      [Receives msgB 7 (Some (Error ''write''))] storeAcme))) = [''acme''] \<and>
   indexedOf (actionsOf (handleWebsocket spec_db sampleLib
      [Receives msgB 7 (Some (Error ''write''))] storeAcme)) = [] \<and>
   indexedOf (actionsOf (handleWebsocket spec_db sampleLib
      [Receives msgB 7 None, ReadFails (Error ''closed'')] storeAcme)) = [(''acme'', ''b'')]"
  by (simp add: run_defs concrete_defs ts1 ne1 zeroTime_def Let_def)

subsection \<open>What is saved\<close>

lemma leading_found:
  assumes "leading W s \<noteq> 0"
  shows "\<exists>w \<in> set W. w \<noteq> [] \<and> take (length w) s = w \<and> leading W s = length w"
proof (cases "filter (\<lambda>w. w \<noteq> [] \<and> take (length w) s = w) W")
  case Nil
  then show ?thesis using assms by (simp add: leading_def)
next
  case (Cons w ws)
  then have "w \<in> set (filter (\<lambda>w. w \<noteq> [] \<and> take (length w) s = w) W)" by simp
  then have "w \<in> set W \<and> w \<noteq> [] \<and> take (length w) s = w" by simp
  moreover have "leading W s = length w" using Cons by (simp add: leading_def)
  ultimately show ?thesis by blast
qed

lemma leading_zero:
  "leading W s = 0 \<longleftrightarrow> (\<forall>w \<in> set W. w \<noteq> [] \<longrightarrow> take (length w) s \<noteq> w)"
proof
  assume z: "leading W s = 0"
  show "\<forall>w \<in> set W. w \<noteq> [] \<longrightarrow> take (length w) s \<noteq> w"
  proof (intro ballI impI notI)
    fix w assume "w \<in> set W" "w \<noteq> []" "take (length w) s = w"
    then have "w \<in> set (filter (\<lambda>w. w \<noteq> [] \<and> take (length w) s = w) W)" by simp
    then obtain v vs where f: "filter (\<lambda>w. w \<noteq> [] \<and> take (length w) s = w) W = v # vs"
      by (cases "filter (\<lambda>w. w \<noteq> [] \<and> take (length w) s = w) W") auto
    then have "v \<in> set (filter (\<lambda>w. w \<noteq> [] \<and> take (length w) s = w) W)" by simp
    then have "v \<noteq> []" by simp
    with f z show False by (simp add: leading_def)
  qed
next
  assume "\<forall>w \<in> set W. w \<noteq> [] \<longrightarrow> take (length w) s \<noteq> w"
  then have "filter (\<lambda>w. w \<noteq> [] \<and> take (length w) s = w) W = []"
    by (auto simp: filter_empty_conv)
  then show "leading W s = 0" by (simp add: leading_def)
qed

lemma trimN_done: "length s \<le> n \<Longrightarrow> leading W (trimN n W s) = 0"
proof (induction n arbitrary: s)
  case 0
  then show ?case by (auto simp: leading_zero)
next
  case (Suc n)
  show ?case
  proof (cases "leading W s = 0")
    case True
    then show ?thesis by simp
  next
    case False
    then obtain w where "w \<noteq> []" "take (length w) s = w" "leading W s = length w"
      using leading_found by blast
    then have "0 < leading W s" by simp
    then have "length (drop (leading W s) s) \<le> n" using Suc.prems by simp
    then show ?thesis using False Suc.IH by simp
  qed
qed

lemma trimN_split: "\<exists>ws. set ws \<subseteq> set W \<and> s = concat ws @ trimN n W s"
proof (induction n arbitrary: s)
  case 0
  have "set [] \<subseteq> set W \<and> s = concat [] @ trimN 0 W s" by simp
  then show ?case by blast
next
  case (Suc n)
  show ?case
  proof (cases "leading W s = 0")
    case True
    then have "set [] \<subseteq> set W \<and> s = concat [] @ trimN (Suc n) W s" by simp
    then show ?thesis by blast
  next
    case False
    then obtain w where w: "w \<in> set W" "take (length w) s = w" "leading W s = length w"
      using leading_found by blast
    obtain ws where ws: "set ws \<subseteq> set W" "drop (length w) s = concat ws @ trimN n W (drop (length w) s)"
      using Suc.IH by blast
    have "s = w @ drop (length w) s" using w(2) by (metis append_take_drop_id)
    then have "s = concat (w # ws) @ trimN (Suc n) W s"
      using ws(2) w(3) False by simp
    moreover have "set (w # ws) \<subseteq> set W" using w(1) ws(1) by simp
    ultimately show ?thesis by blast
  qed
qed

lemma leading_prefix: "leading W (p @ x) = 0 \<Longrightarrow> leading W p = 0"
proof -
  assume z: "leading W (p @ x) = 0"
  show "leading W p = 0"
  proof (rule ccontr)
    assume "leading W p \<noteq> 0"
    then obtain w where w: "w \<in> set W" "w \<noteq> []" "take (length w) p = w"
      using leading_found by blast
    from w(3) have "length (take (length w) p) = length w" by simp
    then have "length w \<le> length p" by simp
    then have "take (length w) (p @ x) = w" using w(3) by simp
    then show False using z w by (auto simp: leading_zero)
  qed
qed

lemma TrimLeft_done: "leading spaceRunes (TrimLeft s) = 0"
  by (simp add: TrimLeft_def trimN_done)

lemma TrimRight_done: "leading (map rev spaceRunes) (rev (TrimRight s)) = 0"
  by (simp add: TrimRight_def trimN_done)

lemma TrimRight_split: "\<exists>ws. set ws \<subseteq> set spaceRunes \<and> s = TrimRight s @ concat ws"
proof -
  obtain vs where vs: "set vs \<subseteq> set (map rev spaceRunes)"
    "rev s = concat vs @ trimN (length s) (map rev spaceRunes) (rev s)"
    using trimN_split by blast
  have "s = rev (rev s)" by simp
  also have "\<dots> = TrimRight s @ rev (concat vs)"
    by (subst vs(2)) (simp add: TrimRight_def)
  also have "rev (concat vs) = concat (map rev (rev vs))" by (simp add: rev_concat)
  finally have "s = TrimRight s @ concat (map rev (rev vs))" .
  moreover have "set (map rev (rev vs)) \<subseteq> set spaceRunes"
    using vs(1) by (auto simp: image_iff) 
  ultimately show ?thesis by blast
qed

lemma TrimSpace_trimmed:
  "leading spaceRunes (TrimSpace s) = 0 \<and> leading (map rev spaceRunes) (rev (TrimSpace s)) = 0"
proof -
  obtain ws where "TrimLeft s = TrimRight (TrimLeft s) @ concat ws"
    using TrimRight_split by blast
  then have "leading spaceRunes (TrimRight (TrimLeft s) @ concat ws) = 0"
    using TrimLeft_done by simp
  then have "leading spaceRunes (TrimRight (TrimLeft s)) = 0" by (rule leading_prefix)
  then show ?thesis by (simp add: TrimSpace_def TrimRight_done)
qed

lemma TrimSpace_split:
  "\<exists>us vs. set us \<subseteq> set spaceRunes \<and> set vs \<subseteq> set spaceRunes \<and>
           s = concat us @ TrimSpace s @ concat vs"
proof -
  obtain us where us: "set us \<subseteq> set spaceRunes" "s = concat us @ TrimLeft s"
    using trimN_split [where W = spaceRunes and s = s and n = "length s"]
    by (auto simp: TrimLeft_def)
  obtain vs where vs: "set vs \<subseteq> set spaceRunes" "TrimLeft s = TrimRight (TrimLeft s) @ concat vs"
    using TrimRight_split by blast
  have "s = concat us @ TrimSpace s @ concat vs"
    using us(2) vs(2) by (simp add: TrimSpace_def)
  then show ?thesis using us(1) vs(1) by blast
qed

lemma leading_Nil: "leading W [] = 0"
  by (auto simp: leading_zero)

lemma normalize_trimmed:
  "leading spaceRunes (normalize d) = 0 \<and> leading (map rev spaceRunes) (rev (normalize d)) = 0"
  by (simp add: normalize_def TrimSpace_trimmed leading_Nil)

text \<open>
  What a save stores, in terms of the variable \<open>p\<close> after decoding: the record handed
  to \<open>Save\<close> carries the clock reading of this iteration as its timestamp and, as
  content, the data held in \<open>p\<close> after \<open>TrimSpace\<close>, or the empty string when
  that is the placeholder. The trimmed data is the data without a run of white space
  runes at each end, and it neither starts nor ends with one. When the message carries a
  data field, it is the data held in \<open>p\<close>.
\<close>

lemma saved_content:
  "checkDomain ops st s (ReadJSON m (payload s)) \<and> pID (ReadJSON m (payload s)) \<noteq> [] \<longrightarrow>
     (let f = editFile (sessionOf (onMessage ops m now w s st))
      in savesOf (actionsOf (onMessage ops m now w s st)) = [f] \<and>
         storeOf (onMessage ops m now w s st) = snd (Save ops st f) \<and>
         fCreated f = now \<and>
         fData f = (if TrimSpace (pData (ReadJSON m (payload s))) = introText then []
                    else TrimSpace (pData (ReadJSON m (payload s)))) \<and>
         (\<forall>d. m_data m = Some d \<longrightarrow>
              fData f = (if TrimSpace d = introText then [] else TrimSpace d)) \<and>
         leading spaceRunes (fData f) = 0 \<and>
         leading (map rev spaceRunes) (rev (fData f)) = 0 \<and>
         (\<exists>us vs. set us \<subseteq> set spaceRunes \<and> set vs \<subseteq> set spaceRunes \<and>
            pData (ReadJSON m (payload s)) =
              concat us @ TrimSpace (pData (ReadJSON m (payload s))) @ concat vs))"
proof (intro impI)
  assume h: "checkDomain ops st s (ReadJSON m (payload s)) \<and> pID (ReadJSON m (payload s)) \<noteq> []"
  then have ne: "pID (ReadJSON m (payload s)) \<noteq> []" and v: "checkDomain ops st s (ReadJSON m (payload s))"
    by simp_all
  have d: "fData (newEditFile (defaultDomain (ReadJSON m (payload s))) now) =
             normalize (pData (ReadJSON m (payload s)))"
    by (simp add: newEditFile_def)
  have t: "leading spaceRunes (normalize (pData (ReadJSON m (payload s)))) = 0 \<and>
           leading (map rev spaceRunes) (rev (normalize (pData (ReadJSON m (payload s))))) = 0"
    by (rule normalize_trimmed)
  show "let f = editFile (sessionOf (onMessage ops m now w s st))
      in savesOf (actionsOf (onMessage ops m now w s st)) = [f] \<and>
         storeOf (onMessage ops m now w s st) = snd (Save ops st f) \<and>
         fCreated f = now \<and>
         fData f = (if TrimSpace (pData (ReadJSON m (payload s))) = introText then []
                    else TrimSpace (pData (ReadJSON m (payload s)))) \<and>
         (\<forall>d. m_data m = Some d \<longrightarrow>
              fData f = (if TrimSpace d = introText then [] else TrimSpace d)) \<and>
         leading spaceRunes (fData f) = 0 \<and>
         leading (map rev spaceRunes) (rev (fData f)) = 0 \<and>
         (\<exists>us vs. set us \<subseteq> set spaceRunes \<and> set vs \<subseteq> set spaceRunes \<and>
            pData (ReadJSON m (payload s)) =
              concat us @ TrimSpace (pData (ReadJSON m (payload s))) @ concat vs)"
    unfolding Let_def onMessage_saved [OF ne v]
    using t TrimSpace_split [of "pData (ReadJSON m (payload s))"]
    by (simp add: savesOf_append savesOf_logged d ReadJSON_present)
       (simp add: newEditFile_def normalize_def)
qed

lemma saved_content_example:
  "checkDomain spec_db storeAcme session0 (ReadJSON msgB (payload session0)) \<and>
   pID (ReadJSON msgB (payload session0)) \<noteq> [] \<and>
   map fData (savesOf (actionsOf (onMessage spec_db msgB 7 None session0 storeAcme))) = [''second''] \<and>
   map fCreated (savesOf (actionsOf (onMessage spec_db msgB 7 None session0 storeAcme))) = [7]"
proof -
  have h: "checkDomain spec_db storeAcme session0 (ReadJSON msgB (payload session0)) \<and>
           pID (ReadJSON msgB (payload session0)) \<noteq> []"
    by (simp add: concrete_defs)
  have d: "m_data msgB = Some '' second ''" by (simp add: msgB_def Msg0_def)
  have ts: "TrimSpace '' second '' = ''second''" by code_simp
  have ne: "''second'' \<noteq> introText" by (simp add: introText_def)
  from saved_content [of spec_db storeAcme session0 msgB 7 None] h d
  show ?thesis by (simp add: Let_def ts ne ReadJSON_present)
qed

subsection \<open>The dump loop\<close>

lemma tick_proj [simp]:
  "tickPanic (a, b, c, d) = a" "tickStore (a, b, c, d) = b" "tickDumped (a, b, c, d) = c"
  "tickActions (a, b, c, d) = d"
  by (simp_all add: tickPanic_def tickStore_def tickDumped_def tickActions_def)

lemma SecondsGt_Since:
  "SecondsGt (Since now t) 3 \<longleftrightarrow> now - t > 3000000000"
  "SecondsGt (Since now t) 10 \<longleftrightarrow> now - t > 10000000000"
  by (auto simp: SecondsGt_def Since_def maxDuration_def minDuration_def)

lemma dumpDue_iff:
  "dumpDue t lm ld \<longleftrightarrow>
     sinceModifiedAt t - lm > 3000000000 \<and> sinceDumpedAt t - ld > 10000000000"
  by (simp add: dumpDue_def SecondsGt_Since)

lemma dumpLoop_Cons:
  "dumpLoop ops (t # ts) st ld =
     (if tickPanic (dumpTick ops t st ld) = None
      then (tickPanic (dumpLoop ops ts (tickStore (dumpTick ops t st ld)) (tickDumped (dumpTick ops t st ld))),
            tickStore (dumpLoop ops ts (tickStore (dumpTick ops t st ld)) (tickDumped (dumpTick ops t st ld))),
            tickDumped (dumpLoop ops ts (tickStore (dumpTick ops t st ld)) (tickDumped (dumpTick ops t st ld))),
            tickActions (dumpTick ops t st ld) @
            tickActions (dumpLoop ops ts (tickStore (dumpTick ops t st ld)) (tickDumped (dumpTick ops t st ld))))
      else dumpTick ops t st ld)"
  by (cases "dumpTick ops t st ld" rule: prod_cases4) (auto split: prod.splits option.splits)

declare dumpLoop.simps(2) [simp del]

lemma logged_no_call: "CallDumpSQL \<notin> set (logged e)" "CallDeleteOldKeys \<notin> set (logged e)"
  by (cases e; simp add: logged_def)+

lemma busy_tick:
  assumes "\<forall>x lm. LastModified ops (activity t x) = Inr lm \<longrightarrow> sinceModifiedAt t - lm < 3000000000"
  shows "tickActions (dumpTick ops t st ld) = []"
proof (cases "LastModified ops (activity t st)")
  case (Inl e)
  then show ?thesis by (simp add: dumpTick_def)
next
  case (Inr lm)
  then have "sinceModifiedAt t - lm < 3000000000" using assms by blast
  then have "\<not> dumpDue t lm ld" by (simp add: dumpDue_iff)
  then show ?thesis using Inr by (simp add: dumpTick_def)
qed

lemma busy_loop:
  assumes "\<forall>t \<in> set ts. \<forall>x lm. LastModified ops (activity t x) = Inr lm \<longrightarrow>
             sinceModifiedAt t - lm < 3000000000"
  shows "tickActions (dumpLoop ops ts st ld) = []"
  using assms
proof (induction ts arbitrary: st ld)
  case Nil
  then show ?case by simp
next
  case (Cons t ts)
  have a: "tickActions (dumpTick ops t st ld) = []" using Cons.prems by (intro busy_tick) simp
  have b: "tickActions (dumpLoop ops ts (tickStore (dumpTick ops t st ld))
                          (tickDumped (dumpTick ops t st ld))) = []"
    using Cons.prems by (intro Cons.IH) simp
  show ?case using a b by (simp add: dumpLoop_Cons)
qed

subsection \<open>The similarity list\<close>

lemma truncate5_take: "truncate5 xs = take 5 xs"
  by (simp add: truncate5_def)

lemma by_key_then_position:
  assumes "sorted (map f xs)" and "\<And>k. sorted_wrt (<) (map g (filter (\<lambda>y. f y = k) xs))"
  shows "sorted_wrt (\<lambda>a b. f a < f b \<or> (f a = f b \<and> g a < g b)) xs"
  using assms
proof (induction xs)
  case Nil
  then show ?case by simp
next
  case (Cons x xs)
  have tail: "sorted_wrt (\<lambda>a b. f a < f b \<or> (f a = f b \<and> g a < g b)) xs"
  proof (rule Cons.IH)
    show "sorted (map f xs)" using Cons.prems(1) by simp
    fix k
    show "sorted_wrt (<) (map g (filter (\<lambda>y. f y = k) xs))"
      using Cons.prems(2) [of k] by (cases "f x = k") simp_all
  qed
  have head: "f x < f y \<or> (f x = f y \<and> g x < g y)" if y: "y \<in> set xs" for y
  proof (cases "f x = f y")
    case True
    have "sorted_wrt (<) (map g (filter (\<lambda>z. f z = f x) (x # xs)))" by (rule Cons.prems(2))
    then have "\<forall>z \<in> set (filter (\<lambda>z. f z = f x) xs). g x < g z" by simp
    then show ?thesis using y True by simp
  next
    case False
    have "f x \<le> f y" using Cons.prems(1) y by simp
    then show ?thesis using False by simp
  qed
  show ?case using tail head by simp
qed

lemma scored_positions: "map simIndex (scored documents d) = map int [0..<length documents]"
  by (simp add: scored_def comp_def)

lemma ranking_sorted: "sorted_wrt ranksBefore (ranking documents d)"
proof -
  let ?f = "\<lambda>s. - simScore s"
  have s: "sorted (map ?f (ranking documents d))" by (simp add: ranking_def)
  have "sorted_wrt (<) (map simIndex (scored documents d))"
    by (simp add: scored_positions sorted_wrt_map)
  then have "sorted_wrt (\<lambda>a b. simIndex a < simIndex b) (scored documents d)"
    by (simp add: sorted_wrt_map)
  then have "sorted_wrt (\<lambda>a b. simIndex a < simIndex b) (filter (\<lambda>y. ?f y = k) (scored documents d))" for k
    by (rule sorted_wrt_filter)
  then have p: "sorted_wrt (<) (map simIndex (filter (\<lambda>y. ?f y = k) (ranking documents d)))" for k
    by (simp add: ranking_def sort_key_stable sorted_wrt_map)
  have "sorted_wrt (\<lambda>a b. ?f a < ?f b \<or> (?f a = ?f b \<and> simIndex a < simIndex b)) (ranking documents d)"
    using s p by (rule by_key_then_position)
  then show ?thesis by (simp add: ranksBefore_def [abs_def])
qed

lemma ranking_set: "set (ranking documents d) = set (scored documents d)"
  by (simp add: ranking_def)

lemma scored_entry:
  assumes "s \<in> set (scored documents d)"
  shows "0 \<le> simIndex s \<and> nat (simIndex s) < length documents \<and>
         simScore s = overlap d (documents ! nat (simIndex s))"
  using assms by (auto simp: scored_def)

lemma top_entries:
  "list_all (\<lambda>s. 0 \<le> simIndex s \<and> nat (simIndex s) < length documents \<and>
                 simScore s = overlap d (documents ! nat (simIndex s)))
            (take 5 (ranking documents d))"
proof -
  have "set (take 5 (ranking documents d)) \<subseteq> set (scored documents d)"
    using set_take_subset [of 5 "ranking documents d"] by (simp add: ranking_set)
  then show ?thesis using scored_entry by (auto simp: list_all_iff)
qed

lemma top_inRange:
  "length ids = length documents \<Longrightarrow> list_all (inRange ids) (take 5 (ranking documents d))"
  using top_entries [where d = d and documents = documents] by (auto simp: list_all_iff inRange_def)

subsection \<open>Uploads\<close>








subsection \<open>What the indexer persists\<close>

lemma last_of_rev:
  "(case rev xs of [] \<Rightarrow> a | y # ys \<Rightarrow> g y) = (if xs = [] then a else g (last xs))"
  by (induction xs rule: rev_induct) simp_all

lemma maindocumentOf_last:
  "maindocumentOf files fileid =
     (if filter (\<lambda>f. fID f = fileid) files = [] then []
      else fData (last (filter (\<lambda>f. fID f = fileid) files)))"
  unfolding maindocumentOf_def by (rule last_of_rev)

lemma only_match:
  assumes "distinct (map fID files)" "f \<in> set files"
  shows "filter (\<lambda>g. fID g = fID f) files = [f]"
  using assms
proof (induction files)
  case Nil
  then show ?case by simp
next
  case (Cons x xs)
  show ?case
  proof (cases "x = f")
    case True
    have "fID f \<notin> fID ` set xs" using Cons.prems(1) True by simp
    then have "\<forall>g \<in> set xs. fID g \<noteq> fID f" by (metis imageI)
    then have "filter (\<lambda>g. fID g = fID f) xs = []" by (simp add: filter_empty_conv)
    then show ?thesis using True by simp
  next
    case False
    then have m: "f \<in> set xs" using Cons.prems(2) by simp
    have "fID x \<notin> fID ` set xs" using Cons.prems(1) by simp
    then have "fID x \<noteq> fID f" using m by (metis imageI)
    then show ?thesis using Cons.IH m Cons.prems(1) by simp
  qed
qed


lemma ids_of_positions:
  assumes "\<forall>s \<in> set sims. 0 \<le> simIndex s \<and> simIndex s < int (length others)"
  shows "similarIdsOf (map fID others) sims = map (\<lambda>s. fID (others ! nat (simIndex s))) sims"
  unfolding similarIdsOf_def using assms by (intro map_cong) auto

lemma in_range_all:
  "list_all (inRange (map fID others)) sims \<longleftrightarrow>
     (\<forall>s \<in> set sims. 0 \<le> simIndex s \<and> simIndex s < int (length others))"
  by (simp add: list_all_iff inRange_def)

lemma addSimilar_any:
  assumes "dsNew L (map fData (othersOf (fst (GetAll ops st domain)) fileid)) = None"
    and "dsJaccardSimilarity L (map fData (othersOf (fst (GetAll ops st domain)) fileid))
           (maindocumentOf (fst (GetAll ops st domain)) fileid) = Inr sims"
  shows "addSimilar ops L st domain fileid =
     (if \<forall>s \<in> set (take 5 sims). 0 \<le> simIndex s \<and>
            simIndex s < int (length (othersOf (fst (GetAll ops st domain)) fileid))
      then (case SetSimilar ops st fileid
                  (map (\<lambda>s. fID (othersOf (fst (GetAll ops st domain)) fileid ! nat (simIndex s)))
                       (take 5 sims)) of
              (e, st') \<Rightarrow> Returns e st')
      else Panics)"
  using assms
  by (simp add: addSimilar_def Let_def truncate5_take in_range_all ids_of_positions)

lemma addSimilar_errors:
  "dsNew L (map fData (othersOf (fst (GetAll ops st domain)) fileid)) = Some e \<Longrightarrow>
     addSimilar ops L st domain fileid = Returns (Some e) st"
  "dsNew L (map fData (othersOf (fst (GetAll ops st domain)) fileid)) = None \<Longrightarrow>
   dsJaccardSimilarity L (map fData (othersOf (fst (GetAll ops st domain)) fileid))
           (maindocumentOf (fst (GetAll ops st domain)) fileid) = Inl e \<Longrightarrow>
     addSimilar ops L st domain fileid = Returns (Some e) st"
  by (simp_all add: addSimilar_def Let_def)

lemma scored_distinct:
  "distinct (scored documents d)" "inj_on simIndex (set (scored documents d))"
proof -
  have "distinct (map simIndex (scored documents d))"
    by (simp add: scored_positions distinct_map inj_on_def)
  then show "distinct (scored documents d)" "inj_on simIndex (set (scored documents d))"
    by (simp_all add: distinct_map)
qed

lemma ranking_distinct: "distinct (ranking documents d)"
  by (simp add: ranking_def scored_distinct)

lemma ranking_length: "length (ranking documents d) = length documents"
  by (simp add: ranking_def scored_def)

lemma scored_at:
  "j < length documents \<Longrightarrow>
     \<lparr>simIndex = int j, simScore = overlap d (documents ! j)\<rparr> \<in> set (scored documents d)"
  by (simp add: scored_def image_iff) 

lemma position_of:
  assumes "a \<in> set (scored documents d)" "b \<in> set (scored documents d)"
    and "nat (simIndex a) = nat (simIndex b)"
  shows "a = b"
proof -
  have "0 \<le> simIndex a" "0 \<le> simIndex b" using assms scored_entry by blast+
  then have "simIndex a = simIndex b" using assms(3) by simp
  then show ?thesis using scored_distinct(2) assms(1,2) by (auto dest: inj_onD)
qed

lemma chosen_distinct: "distinct (map (\<lambda>s. nat (simIndex s)) (take 5 (ranking documents d)))"
proof -
  have sub: "set (take 5 (ranking documents d)) \<subseteq> set (scored documents d)"
    using set_take_subset [of 5 "ranking documents d"] by (simp add: ranking_set)
  have "inj_on (\<lambda>s. nat (simIndex s)) (set (take 5 (ranking documents d)))"
  proof (rule inj_onI)
    fix a b
    assume "a \<in> set (take 5 (ranking documents d))" "b \<in> set (take 5 (ranking documents d))"
      and e: "nat (simIndex a) = nat (simIndex b)"
    then have "a \<in> set (scored documents d)" "b \<in> set (scored documents d)" using sub by blast+
    then show "a = b" using e by (rule position_of)
  qed
  moreover have "distinct (take 5 (ranking documents d))"
    by (simp add: ranking_distinct)
  ultimately show ?thesis by (simp add: distinct_map)
qed

lemma ranks_as_positions:
  assumes "a \<in> set (scored documents d)" "b \<in> set (scored documents d)" "ranksBefore a b"
  shows "overlap d (documents ! nat (simIndex a)) > overlap d (documents ! nat (simIndex b)) \<or>
         (overlap d (documents ! nat (simIndex a)) = overlap d (documents ! nat (simIndex b)) \<and>
          nat (simIndex a) < nat (simIndex b))"
proof -
  have a: "0 \<le> simIndex a \<and> simScore a = overlap d (documents ! nat (simIndex a))"
    and b: "0 \<le> simIndex b \<and> simScore b = overlap d (documents ! nat (simIndex b))"
    using assms scored_entry by blast+
  show ?thesis using assms(3) a b unfolding ranksBefore_def by auto
qed

lemma chosen_sorted:
  "sorted_wrt (\<lambda>i j. overlap d (documents ! i) > overlap d (documents ! j) \<or>
                     (overlap d (documents ! i) = overlap d (documents ! j) \<and> i < j))
     (map (\<lambda>s. nat (simIndex s)) (take 5 (ranking documents d)))"
proof -
  have sub: "set (take 5 (ranking documents d)) \<subseteq> set (scored documents d)"
    using set_take_subset [of 5 "ranking documents d"] by (simp add: ranking_set)
  have "sorted_wrt ranksBefore (take 5 (ranking documents d))"
    using ranking_sorted by (rule sorted_wrt_take)
  then have "sorted_wrt (\<lambda>a b. overlap d (documents ! nat (simIndex a)) > overlap d (documents ! nat (simIndex b)) \<or>
         (overlap d (documents ! nat (simIndex a)) = overlap d (documents ! nat (simIndex b)) \<and>
          nat (simIndex a) < nat (simIndex b))) (take 5 (ranking documents d))"
  proof (rule sorted_wrt_mono_rel [rotated])
    fix a b
    assume "a \<in> set (take 5 (ranking documents d))" "b \<in> set (take 5 (ranking documents d))"
      and r: "ranksBefore a b"
    then have "a \<in> set (scored documents d)" "b \<in> set (scored documents d)" using sub by blast+
    then show "overlap d (documents ! nat (simIndex a)) > overlap d (documents ! nat (simIndex b)) \<or>
         (overlap d (documents ! nat (simIndex a)) = overlap d (documents ! nat (simIndex b)) \<and>
          nat (simIndex a) < nat (simIndex b))"
      using r by (rule ranks_as_positions)
  qed
  then show ?thesis by (simp add: sorted_wrt_map)
qed

lemma chosen_best:
  assumes i: "i \<in> set (map (\<lambda>s. nat (simIndex s)) (take 5 (ranking documents d)))"
    and j: "j < length documents" "j \<notin> set (map (\<lambda>s. nat (simIndex s)) (take 5 (ranking documents d)))"
  shows "overlap d (documents ! i) > overlap d (documents ! j) \<or>
         (overlap d (documents ! i) = overlap d (documents ! j) \<and> i < j)"
proof -
  let ?R = "ranking documents d"
  let ?b = "\<lparr>simIndex = int j, simScore = overlap d (documents ! j)\<rparr>"
  obtain a where a: "a \<in> set (take 5 ?R)" "i = nat (simIndex a)" using i by auto
  have b: "?b \<in> set ?R" using j(1) by (simp add: ranking_set scored_at)
  have "?b \<notin> set (take 5 ?R)"
  proof
    assume "?b \<in> set (take 5 ?R)"
    then have "nat (simIndex ?b) \<in> set (map (\<lambda>s. nat (simIndex s)) (take 5 ?R))" by force
    then show False using j(2) by simp
  qed
  moreover have "set ?R = set (take 5 ?R) \<union> set (drop 5 ?R)"
    by (metis append_take_drop_id set_append)
  ultimately have bd: "?b \<in> set (drop 5 ?R)" using b by blast
  have "sorted_wrt ranksBefore (take 5 ?R @ drop 5 ?R)" using ranking_sorted by simp
  then have "\<forall>x \<in> set (take 5 ?R). \<forall>y \<in> set (drop 5 ?R). ranksBefore x y"
    unfolding sorted_wrt_append by blast
  then have "ranksBefore a ?b" using a(1) bd by blast
  moreover have "a \<in> set (scored documents d)"
    using a(1) set_take_subset [of 5 ?R] by (auto simp: ranking_set)
  moreover have "?b \<in> set (scored documents d)" using j(1) by (rule scored_at)
  ultimately show ?thesis using ranks_as_positions [of a documents d ?b] a(2) by simp
qed

lemma chosen_range:
  "\<forall>i \<in> set (map (\<lambda>s. nat (simIndex s)) (take 5 (ranking documents d))). i < length documents"
  using top_entries [where d = d and documents = documents] by (auto simp: list_all_iff)


text \<open>
  C3. The corpus is what \<open>GetAll\<close> returns for the domain without the documents that
  carry the target's id, and the scores are taken against the content of the target.
  Whatever the library returns, the indexer keeps its first five entries in their order
  and hands the ids of the documents at their positions to \<open>SetSimilar\<close>; an error of
  the library is returned and nothing is persisted; a position outside the corpus is a
  panic. With the ranking of the specification the persisted list never holds the
  target's id, has at most five ids, all of documents of the domain, at distinct
  positions of the corpus, ordered by descending score against the target with equal
  scores in corpus order, and every document left out ranks after every document kept.
  With an empty corpus the list is empty and the indexer calls \<open>SetSimilar\<close> with it.
\<close>

theorem similar_list:
  "(let files = fst (GetAll ops st domain);
        others = filter (\<lambda>f. fID f \<noteq> fileid) files;
        target = (if filter (\<lambda>f. fID f = fileid) files = [] then []
                  else fData (last (filter (\<lambda>f. fID f = fileid) files)));
        score = (\<lambda>i. overlap target (fData (others ! i)));
        chosen = map (\<lambda>s. nat (simIndex s)) (take 5 (ranking (map fData others) target))
    in (\<forall>f \<in> set files. distinct (map fID files) \<and> fID f = fileid \<longrightarrow> target = fData f) \<and>
       (dsNew L (map fData others) = None \<and>
        dsJaccardSimilarity L (map fData others) target = Inr sims \<longrightarrow>
          addSimilar ops L st domain fileid =
            (if \<forall>s \<in> set (take 5 sims). 0 \<le> simIndex s \<and> simIndex s < int (length others)
             then (case SetSimilar ops st fileid
                         (map (\<lambda>s. fID (others ! nat (simIndex s))) (take 5 sims)) of
                     (e, st') \<Rightarrow> Returns e st')
             else Panics)) \<and>
       (dsNew L (map fData others) = Some e \<longrightarrow>
          addSimilar ops L st domain fileid = Returns (Some e) st) \<and>
       (dsNew L (map fData others) = None \<and>
        dsJaccardSimilarity L (map fData others) target = Inl e \<longrightarrow>
          addSimilar ops L st domain fileid = Returns (Some e) st) \<and>
       addSimilar ops (withSimilarity L) st domain fileid =
         (case SetSimilar ops st fileid (map (\<lambda>i. fID (others ! i)) chosen) of
            (e, st') \<Rightarrow> Returns e st') \<and>
       fileid \<notin> set (map (\<lambda>i. fID (others ! i)) chosen) \<and>
       length (map (\<lambda>i. fID (others ! i)) chosen) \<le> 5 \<and>
       set (map (\<lambda>i. fID (others ! i)) chosen) \<subseteq> fID ` set files \<and>
       distinct chosen \<and> (\<forall>i \<in> set chosen. i < length others) \<and>
       length chosen = min 5 (length others) \<and>
       sorted_wrt (\<lambda>i j. score i > score j \<or> (score i = score j \<and> i < j)) chosen \<and>
       (\<forall>i \<in> set chosen. \<forall>j. j < length others \<and> j \<notin> set chosen \<longrightarrow>
            score i > score j \<or> (score i = score j \<and> i < j)) \<and>
       (others = [] \<longrightarrow> chosen = []))"
proof -
  define files where "files = fst (GetAll ops st domain)"
  define others where "others = filter (\<lambda>f. fID f \<noteq> fileid) files"
  define target where "target = (if filter (\<lambda>f. fID f = fileid) files = [] then []
                  else fData (last (filter (\<lambda>f. fID f = fileid) files)))"
  define score where "score = (\<lambda>i. overlap target (fData (others ! i)))"
  define chosen where
    "chosen = map (\<lambda>s. nat (simIndex s)) (take 5 (ranking (map fData others) target))"
  have o: "othersOf files fileid = others" by (simp add: othersOf_def others_def)
  have t: "maindocumentOf files fileid = target" by (simp add: maindocumentOf_last target_def)
  have rng: "\<forall>i \<in> set chosen. i < length others"
    using chosen_range [of "map fData others" target] by (simp add: chosen_def)
  have pin: "\<forall>f \<in> set files. distinct (map fID files) \<and> fID f = fileid \<longrightarrow> target = fData f"
  proof (intro ballI impI)
    fix f assume f: "f \<in> set files" and h: "distinct (map fID files) \<and> fID f = fileid"
    then have "filter (\<lambda>g. fID g = fileid) files = [f]" using only_match [of files f] by auto
    then show "target = fData f" by (simp add: target_def)
  qed
  have any: "dsNew L (map fData others) = None \<and>
        dsJaccardSimilarity L (map fData others) target = Inr sims \<longrightarrow>
          addSimilar ops L st domain fileid =
            (if \<forall>s \<in> set (take 5 sims). 0 \<le> simIndex s \<and> simIndex s < int (length others)
             then (case SetSimilar ops st fileid
                         (map (\<lambda>s. fID (others ! nat (simIndex s))) (take 5 sims)) of
                     (e, st') \<Rightarrow> Returns e st')
             else Panics)"
    using addSimilar_any [of L ops st domain fileid sims]
    by (simp add: files_def [symmetric] o t)
  have e1: "dsNew L (map fData others) = Some e \<longrightarrow>
          addSimilar ops L st domain fileid = Returns (Some e) st"
    using addSimilar_errors(1) [of L ops st domain fileid e]
    by (simp add: files_def [symmetric] o)
  have e2: "dsNew L (map fData others) = None \<and>
        dsJaccardSimilarity L (map fData others) target = Inl e \<longrightarrow>
          addSimilar ops L st domain fileid = Returns (Some e) st"
    using addSimilar_errors(2) [of L ops st domain fileid e]
    by (simp add: files_def [symmetric] o t)
  have top: "\<forall>s \<in> set (take 5 (ranking (map fData others) target)).
               0 \<le> simIndex s \<and> simIndex s < int (length others)"
    using top_entries [where d = target and documents = "map fData others"]
    by (auto simp: list_all_iff)
  have "addSimilar ops (withSimilarity L) st domain fileid =
         (case SetSimilar ops st fileid
                 (map (\<lambda>s. fID (others ! nat (simIndex s)))
                      (take 5 (ranking (map fData others) target))) of
            (e, st') \<Rightarrow> Returns e st')"
    using addSimilar_any [of "withSimilarity L" ops st domain fileid
        "ranking (map fData others) target"] top
    by (simp add: files_def [symmetric] o t withSimilarity_def spec_New_def
        spec_JaccardSimilarity_def)
  then have run: "addSimilar ops (withSimilarity L) st domain fileid =
         (case SetSimilar ops st fileid (map (\<lambda>i. fID (others ! i)) chosen) of
            (e, st') \<Rightarrow> Returns e st')"
    by (simp add: chosen_def comp_def)
  have mem: "set (map (\<lambda>i. fID (others ! i)) chosen) \<subseteq> fID ` set others"
    using rng by auto
  have sub: "fID ` set others \<subseteq> fID ` set files" "fileid \<notin> fID ` set others"
    by (auto simp: others_def)
  have nin: "fileid \<notin> set (map (\<lambda>i. fID (others ! i)) chosen)" using mem sub(2) by blast
  have subf: "set (map (\<lambda>i. fID (others ! i)) chosen) \<subseteq> fID ` set files"
    using mem sub(1) by blast
  have l5: "length (map (\<lambda>i. fID (others ! i)) chosen) \<le> 5" by (simp add: chosen_def)
  have dist: "distinct chosen" unfolding chosen_def by (rule chosen_distinct)
  have len: "length chosen = min 5 (length others)"
    by (simp add: chosen_def ranking_length min.commute)
  have srt: "sorted_wrt (\<lambda>i j. score i > score j \<or> (score i = score j \<and> i < j)) chosen"
  proof -
    have "sorted_wrt (\<lambda>i j. overlap target (map fData others ! i) > overlap target (map fData others ! j) \<or>
                     (overlap target (map fData others ! i) = overlap target (map fData others ! j) \<and> i < j))
            chosen"
      unfolding chosen_def by (rule chosen_sorted)
    then show ?thesis
    proof (rule sorted_wrt_mono_rel [rotated])
      fix i j assume "i \<in> set chosen" "j \<in> set chosen"
      then have "i < length others" "j < length others" using rng by blast+
      moreover assume "overlap target (map fData others ! i) > overlap target (map fData others ! j) \<or>
                     (overlap target (map fData others ! i) = overlap target (map fData others ! j) \<and> i < j)"
      ultimately show "score i > score j \<or> (score i = score j \<and> i < j)"
        by (simp add: score_def)
    qed
  qed
  have best: "\<forall>i \<in> set chosen. \<forall>j. j < length others \<and> j \<notin> set chosen \<longrightarrow>
            score i > score j \<or> (score i = score j \<and> i < j)"
  proof (intro ballI allI impI)
    fix i j assume i: "i \<in> set chosen" and j: "j < length others \<and> j \<notin> set chosen"
    have il: "i < length others" using rng i by blast
    have "overlap target (map fData others ! i) > overlap target (map fData others ! j) \<or>
          (overlap target (map fData others ! i) = overlap target (map fData others ! j) \<and> i < j)"
      using chosen_best [of i "map fData others" target j] i j by (simp add: chosen_def)
    then show "score i > score j \<or> (score i = score j \<and> i < j)"
      using il j by (simp add: score_def)
  qed
  have empty: "others = [] \<longrightarrow> chosen = []"
    by (simp add: chosen_def ranking_def scored_def)
  show ?thesis
    unfolding Let_def files_def [symmetric] others_def [symmetric] target_def [symmetric]
      chosen_def [symmetric]
    by (intro conjI pin any e1 e2 run nin l5 subf dist rng len srt [unfolded score_def]
        best [unfolded score_def] empty)
qed

lemma ranked:
  "ranking [''red green'', ''yellow'', ''green red''] ''red green blue'' =
     [\<lparr>simIndex = 0, simScore = 2 / 3\<rparr>, \<lparr>simIndex = 2, simScore = 2 / 3\<rparr>,
      \<lparr>simIndex = 1, simScore = 0\<rparr>]"
  "ranking [''red green blue'', ''yellow'', ''green red''] ''red green'' =
     [\<lparr>simIndex = 2, simScore = 1\<rparr>, \<lparr>simIndex = 0, simScore = 2 / 3\<rparr>,
      \<lparr>simIndex = 1, simScore = 0\<rparr>]"
  "take 5 (ranking [''a'', ''a b'', ''a b c'', ''a b c d'', ''a b c d e'', ''f e d c b a'']
             ''a b c d e f'') =
     [\<lparr>simIndex = 5, simScore = 1\<rparr>, \<lparr>simIndex = 4, simScore = 5 / 6\<rparr>,
      \<lparr>simIndex = 3, simScore = 2 / 3\<rparr>, \<lparr>simIndex = 2, simScore = 1 / 2\<rparr>,
      \<lparr>simIndex = 1, simScore = 1 / 3\<rparr>]"
  by code_simp+


lemma corpus_four:
  "fst (GetAll spec_db storeFour ''acme'') =
     [doc ''d1'' ''red green blue'', doc ''d2'' ''red green'', doc ''d3'' ''yellow'',
      doc ''d4'' ''green red'']"
  "fst (GetAll spec_db storeSeven ''acme'') =
     [doc ''o1'' ''a'', doc ''o2'' ''a b'', doc ''t'' ''a b c d e f'', doc ''o3'' ''a b c'',
      doc ''o4'' ''a b c d'', doc ''o5'' ''a b c d e'', doc ''o6'' ''f e d c b a'']"
  "fst (GetAll spec_db storeAcme ''acme'') = [docA]"
  by (simp_all add: spec_db_def spec_GetAll_def storeFour_def storeSeven_def storeAcme_def
      store0_def doc_def docA_def)

lemma doc_fields [simp]: "fID (doc i d) = i" "fData (doc i d) = d"
  by (simp_all add: doc_def)

theorem similar_list_witness:
  "addSimilar spec_db (withSimilarity sampleLib) storeFour ''acme'' ''d1'' =
     Returns None (snd (spec_SetSimilar storeFour ''d1'' [''d2'', ''d4'', ''d3''])) \<and>
   addSimilar spec_db (withSimilarity sampleLib) storeFour ''acme'' ''d2'' =
     Returns None (snd (spec_SetSimilar storeFour ''d2'' [''d4'', ''d1'', ''d3''])) \<and>
   addSimilar spec_db (withSimilarity sampleLib) storeSeven ''acme'' ''t'' =
     Returns None (snd (spec_SetSimilar storeSeven ''t'' [''o6'', ''o5'', ''o4'', ''o3'', ''o2''])) \<and>
   addSimilar spec_db (withSimilarity sampleLib) storeAcme ''acme'' ''a'' =
     Returns None (snd (spec_SetSimilar storeAcme ''a'' [])) \<and>
   addSimilar spec_db reversedLib storeFour ''acme'' ''d2'' =
     Returns None (snd (spec_SetSimilar storeFour ''d2'' [''d3'', ''d1'', ''d4''])) \<and>
   addSimilar spec_db failingLib storeFour ''acme'' ''d2'' = Returns (Some (Error ''no corpus'')) storeFour"
proof -
  have set: "SetSimilar spec_db = spec_SetSimilar" by (simp add: spec_db_def)
  have r: "fst (spec_SetSimilar x i ids) = None" for x i ids
    by (simp add: spec_SetSimilar_def)
  have a: "addSimilar spec_db (withSimilarity sampleLib) storeFour ''acme'' ''d1'' =
     Returns None (snd (spec_SetSimilar storeFour ''d1'' [''d2'', ''d4'', ''d3'']))"
    using similar_list [of spec_db storeFour "''acme''" "''d1''" sampleLib]
    by (simp add: Let_def corpus_four ranked set r case_prod_beta)
  have b: "addSimilar spec_db (withSimilarity sampleLib) storeFour ''acme'' ''d2'' =
     Returns None (snd (spec_SetSimilar storeFour ''d2'' [''d4'', ''d1'', ''d3'']))"
    using similar_list [of spec_db storeFour "''acme''" "''d2''" sampleLib]
    by (simp add: Let_def corpus_four ranked set r case_prod_beta)
  have c: "addSimilar spec_db (withSimilarity sampleLib) storeSeven ''acme'' ''t'' =
     Returns None (snd (spec_SetSimilar storeSeven ''t'' [''o6'', ''o5'', ''o4'', ''o3'', ''o2'']))"
    using similar_list [of spec_db storeSeven "''acme''" "''t''" sampleLib]
    by (simp add: Let_def corpus_four ranked set r case_prod_beta)
  have d: "addSimilar spec_db (withSimilarity sampleLib) storeAcme ''acme'' ''a'' =
     Returns None (snd (spec_SetSimilar storeAcme ''a'' []))"
    using similar_list [of spec_db storeAcme "''acme''" "''a''" sampleLib]
    by (simp add: Let_def corpus_four docA_def set r case_prod_beta)
  have lib: "dsNew reversedLib = spec_New"
    "dsJaccardSimilarity reversedLib = (\<lambda>documents d. Inr (rev (ranking documents d)))"
    "dsNew failingLib = (\<lambda>documents. Some (Error ''no corpus''))"
    by (simp_all add: reversedLib_def failingLib_def sampleLib_def)
  have e: "addSimilar spec_db reversedLib storeFour ''acme'' ''d2'' =
     Returns None (snd (spec_SetSimilar storeFour ''d2'' [''d3'', ''d1'', ''d4'']))"
    using similar_list [where ops = spec_db and st = storeFour and domain = "''acme''"
        and fileid = "''d2''" and L = reversedLib
        and sims = "rev (ranking [''red green blue'', ''yellow'', ''green red''] ''red green'')"]
    by (simp add: Let_def corpus_four lib spec_New_def ranked set r case_prod_beta)
  have f: "addSimilar spec_db failingLib storeFour ''acme'' ''d2'' =
     Returns (Some (Error ''no corpus'')) storeFour"
    using similar_list [where ops = spec_db and st = storeFour and domain = "''acme''"
        and fileid = "''d2''" and L = failingLib and e = "Error ''no corpus''"]
    by (simp add: Let_def corpus_four lib)
  show ?thesis using a b c d e f by blast
qed

subsection \<open>When the loop dumps\<close>

text \<open>
  C4. In a round in which \<open>LastModified\<close> answers, the loop does not panic, and it
  deletes the old keys, then dumps, then takes the new reading of \<open>lastDumped\<close>,
  exactly when more than 3 seconds have passed since the last modification and more than
  10 seconds since \<open>lastDumped\<close>; otherwise it does nothing. An error of
  \<open>DeleteOldKeys\<close> or of \<open>DumpSQL\<close> is logged, right after the call, and the loop
  goes on with the next round. When every round finds a modification less than 3
  seconds old, the loop never deletes keys and never dumps.
\<close>

theorem dump_when_idle:
  "(LastModified ops (activity t st) = Inr lm \<longrightarrow>
      tickPanic (dumpTick ops t st ld) = None \<and>
      dumpLoop ops (t # ts) st ld =
        (tickPanic (dumpLoop ops ts (tickStore (dumpTick ops t st ld)) (tickDumped (dumpTick ops t st ld))),
         tickStore (dumpLoop ops ts (tickStore (dumpTick ops t st ld)) (tickDumped (dumpTick ops t st ld))),
         tickDumped (dumpLoop ops ts (tickStore (dumpTick ops t st ld)) (tickDumped (dumpTick ops t st ld))),
         tickActions (dumpTick ops t st ld) @
         tickActions (dumpLoop ops ts (tickStore (dumpTick ops t st ld)) (tickDumped (dumpTick ops t st ld)))) \<and>
      (if sinceModifiedAt t - lm > 3000000000 \<and> sinceDumpedAt t - ld > 10000000000
       then tickActions (dumpTick ops t st ld) =
              [LogDebug ''dumping'', CallDeleteOldKeys] @
              (case fst (DeleteOldKeys ops (activity t st)) of
                 None \<Rightarrow> [] | Some errDelete \<Rightarrow> [LogError errDelete]) @
              [CallDumpSQL] @
              (case fst (DumpSQL ops (snd (DeleteOldKeys ops (activity t st)))) of
                 None \<Rightarrow> [] | Some errDump \<Rightarrow> [LogError errDump]) \<and>
            (\<forall>e. fst (DumpSQL ops (snd (DeleteOldKeys ops (activity t st)))) = Some e \<longrightarrow>
                 LogError e \<in> set (tickActions (dumpTick ops t st ld)) \<and>
                 last (tickActions (dumpTick ops t st ld)) = LogError e) \<and>
            tickStore (dumpTick ops t st ld) =
              snd (DumpSQL ops (snd (DeleteOldKeys ops (activity t st)))) \<and>
            tickDumped (dumpTick ops t st ld) = dumpedAt t
       else tickActions (dumpTick ops t st ld) = [] \<and>
            tickStore (dumpTick ops t st ld) = activity t st \<and>
            tickDumped (dumpTick ops t st ld) = ld)) \<and>
   ((\<forall>u \<in> set us. \<forall>x lm'. LastModified ops (activity u x) = Inr lm' \<longrightarrow>
        sinceModifiedAt u - lm' < 3000000000) \<longrightarrow>
      CallDumpSQL \<notin> set (tickActions (dumpLoop ops us st' ld')) \<and>
      CallDeleteOldKeys \<notin> set (tickActions (dumpLoop ops us st' ld')))"
proof (intro conjI impI)
  assume lm: "LastModified ops (activity t st) = Inr lm"
  show p: "tickPanic (dumpTick ops t st ld) = None"
    using lm by (simp add: dumpTick_def Let_def)
  show "dumpLoop ops (t # ts) st ld =
        (tickPanic (dumpLoop ops ts (tickStore (dumpTick ops t st ld)) (tickDumped (dumpTick ops t st ld))),
         tickStore (dumpLoop ops ts (tickStore (dumpTick ops t st ld)) (tickDumped (dumpTick ops t st ld))),
         tickDumped (dumpLoop ops ts (tickStore (dumpTick ops t st ld)) (tickDumped (dumpTick ops t st ld))),
         tickActions (dumpTick ops t st ld) @
         tickActions (dumpLoop ops ts (tickStore (dumpTick ops t st ld)) (tickDumped (dumpTick ops t st ld))))"
    using p by (simp add: dumpLoop_Cons)
  show "if sinceModifiedAt t - lm > 3000000000 \<and> sinceDumpedAt t - ld > 10000000000
       then tickActions (dumpTick ops t st ld) =
              [LogDebug ''dumping'', CallDeleteOldKeys] @
              (case fst (DeleteOldKeys ops (activity t st)) of
                 None \<Rightarrow> [] | Some errDelete \<Rightarrow> [LogError errDelete]) @
              [CallDumpSQL] @
              (case fst (DumpSQL ops (snd (DeleteOldKeys ops (activity t st)))) of
                 None \<Rightarrow> [] | Some errDump \<Rightarrow> [LogError errDump]) \<and>
            (\<forall>e. fst (DumpSQL ops (snd (DeleteOldKeys ops (activity t st)))) = Some e \<longrightarrow>
                 LogError e \<in> set (tickActions (dumpTick ops t st ld)) \<and>
                 last (tickActions (dumpTick ops t st ld)) = LogError e) \<and>
            tickStore (dumpTick ops t st ld) =
              snd (DumpSQL ops (snd (DeleteOldKeys ops (activity t st)))) \<and>
            tickDumped (dumpTick ops t st ld) = dumpedAt t
       else tickActions (dumpTick ops t st ld) = [] \<and>
            tickStore (dumpTick ops t st ld) = activity t st \<and>
            tickDumped (dumpTick ops t st ld) = ld"
    using lm by (simp add: dumpTick_def Let_def dumpDue_iff logged_def)
next
  assume "\<forall>u \<in> set us. \<forall>x lm'. LastModified ops (activity u x) = Inr lm' \<longrightarrow>
            sinceModifiedAt u - lm' < 3000000000"
  then have "tickActions (dumpLoop ops us st' ld') = []" by (rule busy_loop)
  then show "CallDumpSQL \<notin> set (tickActions (dumpLoop ops us st' ld'))"
    and "CallDeleteOldKeys \<notin> set (tickActions (dumpLoop ops us st' ld'))" by simp_all
qed

theorem dump_when_idle_witness:
  "LastModified spec_db (activity tickIdle store0) = Inr 115000000000 \<and>
   tickActions (dumpTick spec_db tickIdle store0 105000000000) =
     [LogDebug ''dumping'', CallDeleteOldKeys, CallDumpSQL] \<and>
   tickDumped (dumpTick spec_db tickIdle store0 105000000000) = 120000000002 \<and>
   tickActions (dumpTick spec_db tickIdle store0 115000000000) = [] \<and>
   CallDumpSQL \<notin> set (tickActions (dumpLoop spec_db [tickBusy, tickBusy] store0 0)) \<and>
   tickActions (dumpLoop fullDisk [tickIdle, tickLater] store0 105000000000) =
     [LogDebug ''dumping'', CallDeleteOldKeys, CallDumpSQL, LogError (Error ''disk full''),
      LogDebug ''dumping'', CallDeleteOldKeys, CallDumpSQL, LogError (Error ''disk full'')] \<and>
   tickPanic (dumpLoop fullDisk [tickIdle, tickLater] store0 105000000000) = None"
proof -
  have ops: "LastModified spec_db = spec_LastModified" "DeleteOldKeys spec_db = spec_DeleteOldKeys"
    "DumpSQL spec_db = spec_DumpSQL" "LastModified fullDisk = spec_LastModified"
    "DeleteOldKeys fullDisk = spec_DeleteOldKeys"
    "DumpSQL fullDisk = (\<lambda>x. (Some (Error ''disk full''), x))"
    by (simp_all add: spec_db_def fullDisk_def)
  have h1: "LastModified spec_db (activity tickIdle store0) = Inr 115000000000"
    by (simp add: ops spec_LastModified_def tickIdle_def)
  have h2: "\<forall>u \<in> set [tickBusy, tickBusy]. \<forall>x lm'.
              LastModified spec_db (activity u x) = Inr lm' \<longrightarrow> sinceModifiedAt u - lm' < 3000000000"
    by (auto simp: ops spec_LastModified_def tickBusy_def)
  have d: "fst (spec_DeleteOldKeys x) = None" "fst (spec_DumpSQL x) = None" for x
    by (simp_all add: spec_DeleteOldKeys_def spec_DumpSQL_def)
  have idle: "tickActions (dumpTick spec_db tickIdle store0 105000000000) =
     [LogDebug ''dumping'', CallDeleteOldKeys, CallDumpSQL] \<and>
     tickDumped (dumpTick spec_db tickIdle store0 105000000000) = 120000000002"
    using dump_when_idle [where ops = spec_db and t = tickIdle and st = store0
      and lm = 115000000000 and ld = 105000000000 and ts = "[]" and us = "[]"] h1
    by (simp add: ops d tickIdle_def)
  have soon: "tickActions (dumpTick spec_db tickIdle store0 115000000000) = []"
    using dump_when_idle [where ops = spec_db and t = tickIdle and st = store0
      and lm = 115000000000 and ld = 115000000000 and ts = "[]" and us = "[]"] h1
    by (simp add: tickIdle_def)
  have busy: "CallDumpSQL \<notin> set (tickActions (dumpLoop spec_db [tickBusy, tickBusy] store0 0))"
    using dump_when_idle [where ops = spec_db and us = "[tickBusy, tickBusy]" and st' = store0
      and ld' = 0] h2 by blast
  have f1: "LastModified fullDisk (activity tickIdle store0) = Inr 115000000000"
    by (simp add: ops spec_LastModified_def tickIdle_def)
  have first: "tickActions (dumpTick fullDisk tickIdle store0 105000000000) =
      [LogDebug ''dumping'', CallDeleteOldKeys, CallDumpSQL, LogError (Error ''disk full'')] \<and>
     tickDumped (dumpTick fullDisk tickIdle store0 105000000000) = 120000000002 \<and>
     dumpLoop fullDisk [tickIdle, tickLater] store0 105000000000 =
       (tickPanic (dumpLoop fullDisk [tickLater] (tickStore (dumpTick fullDisk tickIdle store0 105000000000))
            (tickDumped (dumpTick fullDisk tickIdle store0 105000000000))),
        tickStore (dumpLoop fullDisk [tickLater] (tickStore (dumpTick fullDisk tickIdle store0 105000000000))
            (tickDumped (dumpTick fullDisk tickIdle store0 105000000000))),
        tickDumped (dumpLoop fullDisk [tickLater] (tickStore (dumpTick fullDisk tickIdle store0 105000000000))
            (tickDumped (dumpTick fullDisk tickIdle store0 105000000000))),
        tickActions (dumpTick fullDisk tickIdle store0 105000000000) @
        tickActions (dumpLoop fullDisk [tickLater] (tickStore (dumpTick fullDisk tickIdle store0 105000000000))
            (tickDumped (dumpTick fullDisk tickIdle store0 105000000000))))"
    using dump_when_idle [where ops = fullDisk and t = tickIdle and st = store0
      and lm = 115000000000 and ld = 105000000000 and ts = "[tickLater]" and us = "[]"] f1
    by (simp add: ops d tickIdle_def)
  have f2: "LastModified fullDisk (activity tickLater x) = Inr 235000000000" for x
    by (simp add: ops spec_LastModified_def tickLater_def)
  have second: "tickActions (dumpTick fullDisk tickLater x 120000000002) =
      [LogDebug ''dumping'', CallDeleteOldKeys, CallDumpSQL, LogError (Error ''disk full'')] \<and>
      tickPanic (dumpTick fullDisk tickLater x 120000000002) = None" for x
    using dump_when_idle [where ops = fullDisk and t = tickLater and st = x
      and lm = 235000000000 and ld = 120000000002 and ts = "[]" and us = "[]"] f2 [of x]
    by (simp add: ops d tickLater_def)
  have loop: "tickActions (dumpLoop fullDisk [tickIdle, tickLater] store0 105000000000) =
     [LogDebug ''dumping'', CallDeleteOldKeys, CallDumpSQL, LogError (Error ''disk full''),
      LogDebug ''dumping'', CallDeleteOldKeys, CallDumpSQL, LogError (Error ''disk full'')] \<and>
     tickPanic (dumpLoop fullDisk [tickIdle, tickLater] store0 105000000000) = None"
    using first second by (simp add: dumpLoop_Cons)
  show ?thesis using h1 idle soon busy loop by blast
qed

text \<open>
  C5. A run on which the claim fails: after a message that saved the document \<open>a\<close>
  with the data \<open>x\<close>, a message with the same id and no data field is decoded over the
  first one and keeps its data; the record handed to \<open>Save\<close> has the content \<open>x\<close>
  again, with the clock reading of the second iteration, where the data field of the
  message, trimmed, is empty.
\<close>

theorem missing_data_keeps_old:
  "m_data msgIdOnly = None \<and> m_id msgIdOnly = Some ''a'' \<and>
   savesOf (actionsOf (handleWebsocket spec_db sampleLib
      [Receives msgFirst 5 None, Receives msgIdOnly 6 None] store0)) =
     [\<lparr>fID = ''a'', fSlug = ''s'', fData = ''x'', fCreated = 5, fModified = 0, fDomain = ''public''\<rparr>,
      \<lparr>fID = ''a'', fSlug = ''s'', fData = ''x'', fCreated = 6, fModified = 0, fDomain = ''public''\<rparr>] \<and>
   map fData (docs (storeOf (handleWebsocket spec_db sampleLib
      [Receives msgFirst 5 None, Receives msgIdOnly 6 None] store0))) = [''x'']"
  by (simp add: run_defs msgIdOnly_def concrete_defs ts1 ne1 zeroTime_def Let_def)

subsection \<open>Viewing a document\<close>

lemma checkCookieKey_without: "checkCookieKey (ops\<lparr>UpdateViews := u\<rparr>) = checkCookieKey ops"
  by (intro ext) (simp add: checkCookieKey_def)

lemma cookie_without:
  "getDomainListCookie (ops\<lparr>UpdateViews := u\<rparr>) st r = getDomainListCookie ops st r"
  by (simp add: getDomainListCookie_def checkCookieKey_without cong: option.case_cong)

lemma signedIn_without:
  "isSignedIn (ops\<lparr>UpdateViews := u\<rparr>) L st r domain = isSignedIn ops L st r domain"
  by (simp add: isSignedIn_def cookie_without)

lemma without_UpdateViews:
  "handleMain (ops\<lparr>UpdateViews := u\<rparr>) L st r nd domain message = handleMain ops L st r nd domain message"
  "handleList (ops\<lparr>UpdateViews := u\<rparr>) L st r nd domain query files = handleList ops L st r nd domain query files"
  by (simp_all add: handleMain_def handleList_def createPage_def signedIn_without)

text \<open>
  C9. The handler answers a view without looking at \<open>UpdateViews\<close>: with any other
  \<open>UpdateViews\<close> in its place the response, the returned error, the log and the store
  it leaves are the same. When the page exists once and may be seen, it starts the task
  for that document and renders the page; what the task does with an error of
  \<open>UpdateViews\<close> is to log it.
\<close>

theorem view_ignores_increment:
  "handleViewEdit (ops\<lparr>UpdateViews := u\<rparr>) L st r nd nd' domain page =
     handleViewEdit ops L st r nd nd' domain page \<and>
   (Exists ops st page domain = Inr True \<and> Get ops st page domain = ([f], None) \<and>
    \<not> (snd (snd (GetDomainFromName ops st domain)) = None \<and>
       \<not> fst (isSignedIn ops L st r domain) \<and> \<not> fst (snd (GetDomainFromName ops st domain))) \<longrightarrow>
      handleViewEdit ops L st r nd nd' domain page =
        Normal \<lparr>hResponse =
                  \<lparr>rsCookies = [], rsHeaders = gzipHtml,
                   rsBody = ViewEditTemplate
                     (viewPage L domain page (fst (isSignedIn ops L st r domain))
                        (fst (snd (isSignedIn ops L st r domain))) f
                        (fst (GetSimilar ops st (fID f))))\<rparr>,
                hErr = nExecute nd, hStore = st,
                hLog = (case snd (GetSimilar ops st (fID f)) of
                          None \<Rightarrow> [] | Some e \<Rightarrow> [LogError e]),
                hSpawned = [f]\<rparr>) \<and>
   updateViewsTask ops st2 f2 =
     (snd (UpdateViews ops st2 f2),
      case fst (UpdateViews ops st2 f2) of None \<Rightarrow> [] | Some e \<Rightarrow> [LogError e])"
proof (intro conjI impI)
  show "handleViewEdit (ops\<lparr>UpdateViews := u\<rparr>) L st r nd nd' domain page =
     handleViewEdit ops L st r nd nd' domain page"
    by (simp add: handleViewEdit_def without_UpdateViews signedIn_without
        cong: sum.case_cong prod.case_cong option.case_cong list.case_cong if_cong)
  show "updateViewsTask ops st2 f2 =
     (snd (UpdateViews ops st2 f2),
      case fst (UpdateViews ops st2 f2) of None \<Rightarrow> [] | Some e \<Rightarrow> [LogError e])"
    by (simp add: updateViewsTask_def logged_def)
next
  assume h: "Exists ops st page domain = Inr True \<and> Get ops st page domain = ([f], None) \<and>
    \<not> (snd (snd (GetDomainFromName ops st domain)) = None \<and>
       \<not> fst (isSignedIn ops L st r domain) \<and> \<not> fst (snd (GetDomainFromName ops st domain)))"
  obtain a b c where s: "isSignedIn ops L st r domain = (a, b, c)" by (rule prod_cases3)
  show "handleViewEdit ops L st r nd nd' domain page =
        Normal \<lparr>hResponse =
                  \<lparr>rsCookies = [], rsHeaders = gzipHtml,
                   rsBody = ViewEditTemplate
                     (viewPage L domain page (fst (isSignedIn ops L st r domain))
                        (fst (snd (isSignedIn ops L st r domain))) f
                        (fst (GetSimilar ops st (fID f))))\<rparr>,
                hErr = nExecute nd, hStore = st,
                hLog = (case snd (GetSimilar ops st (fID f)) of
                          None \<Rightarrow> [] | Some e \<Rightarrow> [LogError e]),
                hSpawned = [f]\<rparr>"
    using h unfolding handleViewEdit_def s by (auto simp: logged_def)
qed

theorem view_ignores_increment_witness:
  "Exists spec_db storeAcme ''notes'' ''acme'' = Inr True \<and>
   Get spec_db storeAcme ''notes'' ''acme'' = ([docA], None) \<and>
   fst (isSignedIn spec_db sampleLib storeAcme reqView ''acme'') \<and>
   (case handleViewEdit spec_db sampleLib storeAcme reqView nd0 nd0 ''acme'' ''notes'' of
      Normal res \<Rightarrow> hSpawned res = [docA] \<and> hErr res = None \<and> hStore res = storeAcme
    | Panic \<Rightarrow> False) \<and>
   handleViewEdit lockedViews sampleLib storeAcme reqView nd0 nd0 ''acme'' ''notes'' =
     handleViewEdit spec_db sampleLib storeAcme reqView nd0 nd0 ''acme'' ''notes'' \<and>
   updateViewsTask lockedViews storeAcme docA = (storeAcme, [LogError (Error ''locked'')])"
proof -
  have ops: "Exists spec_db = spec_Exists" "Get spec_db = spec_Get"
    by (simp_all add: spec_db_def)
  have e: "Exists spec_db storeAcme ''notes'' ''acme'' = Inr True"
    and g: "Get spec_db storeAcme ''notes'' ''acme'' = ([docA], None)"
    by (simp_all add: ops spec_Exists_def spec_Get_def storeAcme_def store0_def docA_def)
  have s: "fst (isSignedIn spec_db sampleLib storeAcme reqView ''acme'')"
    by (simp add: isSignedIn_def getDomainListCookie_def checkCookieKey_def reqView_def
        sampleLib_def concrete_defs Let_def)
  note t = view_ignores_increment [where ops = spec_db and L = sampleLib and st = storeAcme
      and r = reqView and nd = nd0 and nd' = nd0 and domain = "''acme''" and page = "''notes''"
      and f = docA and u = "\<lambda>x f. (Some (Error ''locked''), x)" and ?st2.0 = storeAcme
      and ?f2.0 = docA]
  from t e g s
  have a: "case handleViewEdit spec_db sampleLib storeAcme reqView nd0 nd0 ''acme'' ''notes'' of
      Normal res \<Rightarrow> hSpawned res = [docA] \<and> hErr res = None \<and> hStore res = storeAcme
    | Panic \<Rightarrow> False"
    by (simp add: nd0_def)
  from t have b: "handleViewEdit lockedViews sampleLib storeAcme reqView nd0 nd0 ''acme'' ''notes'' =
     handleViewEdit spec_db sampleLib storeAcme reqView nd0 nd0 ''acme'' ''notes''"
    unfolding lockedViews_def by blast
  have "updateViewsTask lockedViews storeAcme docA =
          (snd (UpdateViews lockedViews storeAcme docA),
           case fst (UpdateViews lockedViews storeAcme docA) of None \<Rightarrow> [] | Some e \<Rightarrow> [LogError e])"
    using view_ignores_increment [where ops = lockedViews and ?st2.0 = storeAcme and ?f2.0 = docA]
    by blast
  then have c: "updateViewsTask lockedViews storeAcme docA = (storeAcme, [LogError (Error ''locked'')])"
    by (simp add: lockedViews_def)
  show ?thesis using e g s a b c by blast
qed

subsection \<open>Logging in\<close>

lemma spec_ops:
  "GetDomainFromName spec_db = spec_GetDomainFromName" "SetDomain spec_db = spec_SetDomain"
  "SetKey spec_db = spec_SetKey" "Save spec_db = spec_Save" "CheckKey spec_db = spec_CheckKey"
  by (simp_all add: spec_db_def)

lemma handleMain_keeps:
  "domains (hStore (handleMain spec_db L st r nd domain message)) = domains st"
  "keys (hStore (handleMain spec_db L st r nd domain message)) = keys st"
  "issued (hStore (handleMain spec_db L st r nd domain message)) = issued st"
  "\<exists>t. rsBody (hResponse (handleMain spec_db L st r nd domain message)) = MainTemplate t \<and>
       tDomain t = domain \<and> tMessage t = message"
  by (simp_all add: handleMain_def createPage_def spec_ops spec_Save_def Let_def
      split: prod.splits)

lemma joinComma_head: "take (length k) (joinComma (k # ks)) = k"
  by (cases ks) simp_all

lemma cookie_head:
  "cName (updateDomainCookie L domain k m now) = ''rwtxt-domains'' \<and>
   take (length k) (cValue (updateDomainCookie L domain k m now)) = k"
  by (simp add: updateDomainCookie_def Let_def joinComma_head)

text \<open>
  C10. On the store of the specification: a login that names, after lower case and
  trimming, a domain other than \<open>public\<close> and not empty, with a password that is not
  empty after trimming, for a domain that is not registered, registers the domain with
  the hash of that password, then issues a key for it, sets the cookie with that key
  first and redirects to the domain: no error is returned. When the domain is
  \<open>public\<close> or empty, or the password is empty, the domains and keys of the store stay
  as they are and the main page of \<open>public\<close> is rendered.
\<close>

theorem login_registers:
  "(let domain = TrimSpace (ToLower L (rForm r ''domain''));
        password = TrimSpace (rForm r ''password'');
        res = handleLogin spec_db L st r nd
    in (domain \<noteq> ''public'' \<and> domain \<noteq> [] \<and> password \<noteq> [] \<and> domains st domain = None \<longrightarrow>
          hStore res = snd (spec_SetKey (snd (spec_SetDomain st domain password)) domain password) \<and>
          domains (hStore res) domain = Some (pwHash st password, False) \<and>
          keys (hStore res) (tokenOf (issued st)) = Some (domain, clock st) \<and>
          spec_CheckKey (hStore res) (tokenOf (issued st)) = Inr domain \<and>
          hErr res = None \<and> hLog res = [] \<and>
          rsBody (hResponse res) = HttpRedirect (''/'' @ domain) 302 \<and>
          map cName (rsCookies (hResponse res)) = [''rwtxt-domains''] \<and>
          map (\<lambda>c. take (length (tokenOf (issued st))) (cValue c)) (rsCookies (hResponse res)) =
            [tokenOf (issued st)]) \<and>
       (domain = ''public'' \<or> domain = [] \<or> password = [] \<longrightarrow>
          domains (hStore res) = domains st \<and> keys (hStore res) = keys st \<and>
          issued (hStore res) = issued st \<and>
          (\<exists>t. rsBody (hResponse res) = MainTemplate t \<and> tDomain t = ''public'')))"
proof -
  define domain where "domain = TrimSpace (ToLower L (rForm r ''domain''))"
  define password where "password = TrimSpace (rForm r ''password'')"
  define res where "res = handleLogin spec_db L st r nd"
  have fresh: "hStore res = snd (spec_SetKey (snd (spec_SetDomain st domain password)) domain password) \<and>
          domains (hStore res) domain = Some (pwHash st password, False) \<and>
          keys (hStore res) (tokenOf (issued st)) = Some (domain, clock st) \<and>
          spec_CheckKey (hStore res) (tokenOf (issued st)) = Inr domain \<and>
          hErr res = None \<and> hLog res = [] \<and>
          rsBody (hResponse res) = HttpRedirect (''/'' @ domain) 302 \<and>
          map cName (rsCookies (hResponse res)) = [''rwtxt-domains''] \<and>
          map (\<lambda>c. take (length (tokenOf (issued st))) (cValue c)) (rsCookies (hResponse res)) =
            [tokenOf (issued st)]"
    if h: "domain \<noteq> ''public'' \<and> domain \<noteq> [] \<and> password \<noteq> [] \<and> domains st domain = None"
  proof -
    have d: "spec_GetDomainFromName st domain = (0, False, Some (Error ''NotFoundError''))"
      using h by (simp add: spec_GetDomainFromName_def)
    have r1: "spec_SetDomain st domain password =
                (None, st\<lparr>domains := (domains st)(domain \<mapsto> (pwHash st password, False)),
                          lastMutation := clock st\<rparr>)"
      using h by (simp add: spec_SetDomain_def)
    let ?st1 = "st\<lparr>domains := (domains st)(domain \<mapsto> (pwHash st password, False)),
                   lastMutation := clock st\<rparr>"
    have r2: "spec_SetKey ?st1 domain password =
                (Inr (tokenOf (issued st)),
                 ?st1\<lparr>keys := (keys st)(tokenOf (issued st) \<mapsto> (domain, clock st)),
                      issued := Suc (issued st), lastMutation := clock st\<rparr>)"
      by (simp add: spec_SetKey_def)
    have run: "res =
      \<lparr>hResponse =
         \<lparr>rsCookies = [updateDomainCookie L domain (tokenOf (issued st))
                         (fst (getDomainListCookie spec_db
                            (?st1\<lparr>keys := (keys st)(tokenOf (issued st) \<mapsto> (domain, clock st)),
                                  issued := Suc (issued st), lastMutation := clock st\<rparr>) r)) (nNow nd)],
          rsHeaders = [], rsBody = HttpRedirect (''/'' @ domain) 302\<rparr>,
       hErr = None,
       hStore = ?st1\<lparr>keys := (keys st)(tokenOf (issued st) \<mapsto> (domain, clock st)),
                      issued := Suc (issued st), lastMutation := clock st\<rparr>,
       hLog = [], hSpawned = []\<rparr>"
      using h unfolding res_def handleLogin_def Let_def domain_def [symmetric] password_def [symmetric]
      by (simp add: spec_ops d r1 r2)
    show ?thesis
      unfolding run by (simp add: r1 r2 cookie_head spec_CheckKey_def)
  qed
  have refused: "domains (hStore res) = domains st \<and> keys (hStore res) = keys st \<and>
          issued (hStore res) = issued st \<and>
          (\<exists>t. rsBody (hResponse res) = MainTemplate t \<and> tDomain t = ''public'')"
    if h: "domain = ''public'' \<or> domain = [] \<or> password = []"
  proof -
    have "res = handleMain spec_db L st r nd ''public'' [] \<or>
          res = handleMain spec_db L st r nd ''public'' ''domain key cannot be empty''"
      using h unfolding res_def handleLogin_def Let_def domain_def [symmetric] password_def [symmetric]
      by auto
    then show ?thesis using handleMain_keeps [of L st r nd "''public''"] by metis
  qed
  show ?thesis
    unfolding Let_def domain_def [symmetric] password_def [symmetric] res_def [symmetric]
    using fresh refused by blast
qed

lemma norm_login:
  "TrimSpace (ToLower sampleLib (rForm reqLogin ''domain'')) = ''zeta''"
  "TrimSpace (rForm reqLogin ''password'') = ''s3cr3t''"
  "TrimSpace (ToLower sampleLib (rForm reqPublic ''domain'')) = ''public''"
  "TrimSpace (rForm reqPublic ''password'') = ''s3cr3t''"
proof -
  have "TrimSpace (lowerASCII '' Zeta '') = ''zeta''" by code_simp
  then show "TrimSpace (ToLower sampleLib (rForm reqLogin ''domain'')) = ''zeta''"
    by (simp add: sampleLib_def reqLogin_def)
  have "TrimSpace (lowerASCII '' PUBLIC '') = ''public''" by code_simp
  then show "TrimSpace (ToLower sampleLib (rForm reqPublic ''domain'')) = ''public''"
    by (simp add: sampleLib_def reqPublic_def)
  have "TrimSpace ''s3cr3t'' = ''s3cr3t''" by code_simp
  then show "TrimSpace (rForm reqLogin ''password'') = ''s3cr3t''"
    "TrimSpace (rForm reqPublic ''password'') = ''s3cr3t''"
    by (simp_all add: reqLogin_def reqPublic_def)
qed

theorem login_registers_witness:
  "TrimSpace (ToLower sampleLib (rForm reqLogin ''domain'')) = ''zeta'' \<and>
   domains storeAcme ''zeta'' = None \<and>
   domains (hStore (handleLogin spec_db sampleLib storeAcme reqLogin nd0)) ''zeta'' =
     Some (''t3rc3s'', False) \<and>
   spec_CheckKey (hStore (handleLogin spec_db sampleLib storeAcme reqLogin nd0)) ''k'' = Inr ''zeta'' \<and>
   rsBody (hResponse (handleLogin spec_db sampleLib storeAcme reqLogin nd0)) = HttpRedirect ''/zeta'' 302 \<and>
   hErr (handleLogin spec_db sampleLib storeAcme reqLogin nd0) = None \<and>
   TrimSpace (ToLower sampleLib (rForm reqPublic ''domain'')) = ''public'' \<and>
   domains (hStore (handleLogin spec_db sampleLib storeAcme reqPublic nd0)) = domains storeAcme \<and>
   keys (hStore (handleLogin spec_db sampleLib storeAcme reqPublic nd0)) = keys storeAcme"
proof -
  have n: "domains storeAcme ''zeta'' = None" "issued storeAcme = 0" "pwHash storeAcme = rev"
    by (simp_all add: storeAcme_def store0_def)
  note t = login_registers [of sampleLib reqLogin storeAcme nd0, unfolded Let_def norm_login]
  have h: "''zeta'' \<noteq> ''public'' \<and> ''zeta'' \<noteq> [] \<and> ''s3cr3t'' \<noteq> [] \<and> domains storeAcme ''zeta'' = None"
    using n by simp
  from t h have "domains (hStore (handleLogin spec_db sampleLib storeAcme reqLogin nd0)) ''zeta'' =
       Some (pwHash storeAcme ''s3cr3t'', False) \<and>
     spec_CheckKey (hStore (handleLogin spec_db sampleLib storeAcme reqLogin nd0))
       (tokenOf (issued storeAcme)) = Inr ''zeta'' \<and>
     rsBody (hResponse (handleLogin spec_db sampleLib storeAcme reqLogin nd0)) =
       HttpRedirect (''/'' @ ''zeta'') 302 \<and>
     hErr (handleLogin spec_db sampleLib storeAcme reqLogin nd0) = None"
    by blast
  then have a: "domains (hStore (handleLogin spec_db sampleLib storeAcme reqLogin nd0)) ''zeta'' =
       Some (''t3rc3s'', False) \<and>
     spec_CheckKey (hStore (handleLogin spec_db sampleLib storeAcme reqLogin nd0)) ''k'' = Inr ''zeta'' \<and>
     rsBody (hResponse (handleLogin spec_db sampleLib storeAcme reqLogin nd0)) = HttpRedirect ''/zeta'' 302 \<and>
     hErr (handleLogin spec_db sampleLib storeAcme reqLogin nd0) = None"
    by (simp add: n tokenOf_def)
  note p = login_registers [of sampleLib reqPublic storeAcme nd0, unfolded Let_def norm_login]
  from p have b: "domains (hStore (handleLogin spec_db sampleLib storeAcme reqPublic nd0)) = domains storeAcme \<and>
     keys (hStore (handleLogin spec_db sampleLib storeAcme reqPublic nd0)) = keys storeAcme"
    by blast
  show ?thesis using a b n(1) norm_login(1,3) by blast
qed

end
